theory Spec2Isabelle
  imports Complex_Main "HOL-Library.Sublist"
begin

section \<open>JavaScript primitives used by the sources\<close>

text \<open>
  Strings are sequences of code units; \<open>String.prototype.indexOf(s, pos)\<close> clamps the
  start position to the length of the text and returns the first index at or after it
  where \<open>s\<close> occurs, or \<open>-1\<close>. The empty string occurs at every position.
\<close>

fun search_from :: "'a list \<Rightarrow> 'a list \<Rightarrow> nat \<Rightarrow> int" where
  "search_from s [] k = (if s = [] then int k else - 1)"
| "search_from s (c # t) k =
     (if take (length s) (c # t) = s then int k else search_from s t (Suc k))"

definition indexOf :: "'a list \<Rightarrow> 'a list \<Rightarrow> nat \<Rightarrow> int" where
  "indexOf t s pos = (let p = min pos (length t) in search_from s (drop p t) p)"

definition includes_str :: "'a list \<Rightarrow> 'a list \<Rightarrow> bool" where
  "includes_str t s = (indexOf t s 0 \<noteq> - 1)"

text \<open>\<open>String.prototype.slice(a, b)\<close> and \<open>slice(a)\<close> for non-negative indices.\<close>

definition slice :: "'a list \<Rightarrow> nat \<Rightarrow> nat \<Rightarrow> 'a list" where
  "slice t a b = take (b - a) (drop a t)"

definition slice_from :: "'a list \<Rightarrow> nat \<Rightarrow> 'a list" where
  "slice_from t a = drop a t"

text \<open>\<open>Array.prototype.indexOf\<close>: the first index holding the element, or \<open>-1\<close>.\<close>

fun array_indexOf_from :: "'a list \<Rightarrow> 'a \<Rightarrow> nat \<Rightarrow> int" where
  "array_indexOf_from [] x k = - 1"
| "array_indexOf_from (y # ys) x k = (if y = x then int k else array_indexOf_from ys x (Suc k))"

definition array_indexOf :: "'a list \<Rightarrow> 'a \<Rightarrow> int" where
  "array_indexOf xs x = array_indexOf_from xs x 0"

section \<open>Highlight Segmenter (App.tsx, renderTextWithHighlights)\<close>

text \<open>
  Redaction items are objects; \<open>analysis.redactions.indexOf(r)\<close> compares them by
  identity. An object is therefore a reference into a heap of items, and the lists hold
  references. Record fields carry a prefix, since several interfaces of the sources share
  field names (\<open>text\<close>, \<open>category\<close>, \<open>id\<close>).
\<close>

type_synonym ref = nat

record RedactionItem =
  r_page :: int
  r_x1 :: real
  r_y1 :: real
  r_x2 :: real
  r_y2 :: real
  r_category :: string
  r_text :: string
  r_confidence :: real

record DocumentAnalysis =
  da_document_id :: string
  da_total_pages :: int
  da_redactions :: "ref list"
  da_status :: string

text \<open>The copy \<open>{ ...r, globalIndex }\<close> made by the first \<open>map\<close>.\<close>

record IndexedRedaction =
  item :: RedactionItem
  globalIndex :: int

record Segment =
  seg_text :: string
  isRedacted :: bool
  redactionIndex :: "int option"

datatype Rendered = PlainText string | HighlightedText "Segment list"

text \<open>
  \<open>analysis?.redactions.indexOf(r) || idx\<close>: without an analysis the left operand is
  \<open>undefined\<close>; the index \<open>0\<close> is falsy as well, \<open>-1\<close> is not.
\<close>

definition globalIndexOf :: "DocumentAnalysis option \<Rightarrow> ref \<Rightarrow> nat \<Rightarrow> int" where
  "globalIndexOf analysis r idx =
     (case analysis of
        None \<Rightarrow> int idx
      | Some a \<Rightarrow>
          (let i = array_indexOf (da_redactions a) r in if i = 0 then int idx else i))"

definition indexed :: "DocumentAnalysis option \<Rightarrow> (ref \<Rightarrow> RedactionItem) \<Rightarrow> ref list \<Rightarrow>
    IndexedRedaction list" where
  "indexed analysis heap redactions =
     map (\<lambda>(idx, r). \<lparr>item = heap r, globalIndex = globalIndexOf analysis r idx\<rparr>)
       (enumerate 0 redactions)"

text \<open>\<open>Array.prototype.sort\<close> is stable, as insertion sort by key is.\<close>

definition sortedRedactions :: "DocumentAnalysis option \<Rightarrow> (ref \<Rightarrow> RedactionItem) \<Rightarrow> string \<Rightarrow>
    ref list \<Rightarrow> IndexedRedaction list" where
  "sortedRedactions analysis heap t redactions =
     sort_key (\<lambda>a. indexOf t (r_text (item a)) 0)
       (filter (\<lambda>r. includes_str t (r_text (item r))) (indexed analysis heap redactions))"

text \<open>
  The body of the \<open>forEach\<close>: the state is the pair of \<open>segments\<close> and
  \<open>currentIndex\<close>.
\<close>

definition pushRedaction :: "string \<Rightarrow> Segment list \<times> nat \<Rightarrow> IndexedRedaction \<Rightarrow>
    Segment list \<times> nat" where
  "pushRedaction t st redaction =
     (case st of (segments, currentIndex) \<Rightarrow>
        (let startIndex = indexOf t (r_text (item redaction)) currentIndex in
         if startIndex \<ge> 0 then
           (let segments1 =
                  (if nat startIndex > currentIndex
                   then segments @ [\<lparr>seg_text = slice t currentIndex (nat startIndex),
                                      isRedacted = False, redactionIndex = None\<rparr>]
                   else segments);
                segments2 =
                  segments1 @ [\<lparr>seg_text = r_text (item redaction), isRedacted = True,
                                 redactionIndex = Some (globalIndex redaction)\<rparr>]
            in (segments2, nat startIndex + length (r_text (item redaction))))
         else (segments, currentIndex)))"

definition remainingText :: "string \<Rightarrow> Segment list \<times> nat \<Rightarrow> Segment list" where
  "remainingText t st =
     (case st of (segments, currentIndex) \<Rightarrow>
        if currentIndex < length t
        then segments @ [\<lparr>seg_text = slice_from t currentIndex, isRedacted = False,
                           redactionIndex = None\<rparr>]
        else segments)"

definition renderTextWithHighlights :: "DocumentAnalysis option \<Rightarrow> (ref \<Rightarrow> RedactionItem) \<Rightarrow>
    string \<Rightarrow> ref list \<Rightarrow> Rendered" where
  "renderTextWithHighlights analysis heap t redactions =
     (if redactions = [] then PlainText t
      else HighlightedText
        (remainingText t
           (foldl (pushRedaction t) ([], 0) (sortedRedactions analysis heap t redactions))))"

text \<open>The text a rendering shows: the children of the returned element, in order.\<close>

fun renderedText :: "Rendered \<Rightarrow> string" where
  "renderedText (PlainText t) = t"
| "renderedText (HighlightedText segments) = concat (map seg_text segments)"

text \<open>
  The invariant of the walk: the segments pushed so far spell the text up to the cursor.
\<close>

definition covers :: "string \<Rightarrow> Segment list \<times> nat \<Rightarrow> bool" where
  "covers t st = (snd st \<le> length t \<and> concat (map seg_text (fst st)) = take (snd st) t)"

text \<open>
  The character range of the input text that each redacted segment covers: segments are
  laid out one after the other, so a segment starts where the texts before it end. Two
  half-open ranges overlap when they share a position.
\<close>

fun segmentsOf :: "Rendered \<Rightarrow> Segment list" where
  "segmentsOf (PlainText t) = []"
| "segmentsOf (HighlightedText segments) = segments"

fun redactedSpans :: "nat \<Rightarrow> Segment list \<Rightarrow> (nat \<times> nat \<times> string) list" where
  "redactedSpans off [] = []"
| "redactedSpans off (s # ss) =
     (if isRedacted s then [(off, off + length (seg_text s), seg_text s)] else [])
       @ redactedSpans (off + length (seg_text s)) ss"

definition overlap :: "nat \<times> nat \<times> 'a \<Rightarrow> nat \<times> nat \<times> 'a \<Rightarrow> bool" where
  "overlap p q = (max (fst p) (fst q) < min (fst (snd p)) (fst (snd q)))"

subsection \<open>The example of the specification\<close>

definition exampleText :: string where
  "exampleText = ''Name: John Smith, SSN: 123-45-6789''"

definition exampleHeap :: "ref \<Rightarrow> RedactionItem" where
  "exampleHeap r =
     (if r = 0
      then \<lparr>r_page = 0, r_x1 = 0, r_y1 = 0, r_x2 = 0, r_y2 = 0, r_category = ''PII'',
             r_text = ''John Smith'', r_confidence = 1\<rparr>
      else \<lparr>r_page = 0, r_x1 = 0, r_y1 = 0, r_x2 = 0, r_y2 = 0, r_category = ''PII'',
             r_text = ''123-45-6789'', r_confidence = 1\<rparr>)"

definition exampleAnalysis :: DocumentAnalysis where
  "exampleAnalysis = \<lparr>da_document_id = ''doc_1'', da_total_pages = 1, da_redactions = [0, 1],
     da_status = ''analyzed''\<rparr>"

text \<open>
  What it means for a redacted segment to be tagged with the index, in the redaction list
  of the analysis, of a redaction that was passed and whose text is the segment's text.
\<close>

definition tagsAnalysisIndex :: "DocumentAnalysis option \<Rightarrow> (ref \<Rightarrow> RedactionItem) \<Rightarrow> ref list \<Rightarrow>
    Segment \<Rightarrow> bool" where
  "tagsAnalysisIndex analysis heap redactions seg =
     (case analysis of
        None \<Rightarrow> False
      | Some a \<Rightarrow>
          (case redactionIndex seg of
             None \<Rightarrow> False
           | Some g \<Rightarrow> 0 \<le> g \<and> nat g < length (da_redactions a) \<and>
                da_redactions a ! nat g \<in> set redactions \<and>
                r_text (heap (da_redactions a ! nat g)) = seg_text seg))"

definition exampleSegments :: "Segment list" where
  "exampleSegments =
    [\<lparr>seg_text = ''Name: '', isRedacted = False, redactionIndex = None\<rparr>,
     \<lparr>seg_text = ''John Smith'', isRedacted = True, redactionIndex = Some 0\<rparr>,
     \<lparr>seg_text = '', SSN: '', isRedacted = False, redactionIndex = None\<rparr>,
     \<lparr>seg_text = ''123-45-6789'', isRedacted = True, redactionIndex = Some 1\<rparr>]"

section \<open>Review Store (store/useStore.ts)\<close>

text \<open>
  The interfaces of the store. A \<open>number\<close> is a real (JSON carries no NaN or infinity);
  an optional property is an \<open>option\<close>.
\<close>

record Detection =
  d_text :: string
  d_category :: string
  d_confidence :: real
  d_page_number :: real
  d_start_pos :: real
  d_end_pos :: real
  d_detection_reason :: string
  d_pattern_name :: "string option"
  d_context :: "string option"
  d_approved :: bool
  d_id :: string

record DocumentMetadata =
  m_page_count :: real
  m_content_type :: "string option"
  m_original_filename :: "string option"
  m_other :: "(string \<times> string) list"

record Document =
  doc_id :: string
  filename :: string
  size :: real
  page_count :: real
  uploaded_at :: string
  metadata :: DocumentMetadata

record Analysis =
  a_id :: string
  a_document_id :: string
  total_detections :: real
  high_confidence_count :: real
  categories :: "string list"
  detections :: "Detection list"
  processing_time :: real

record RedactionConfig =
  document_type :: string
  confidence_threshold :: real
  enabled_categories :: "string list"
  use_ai_detection :: bool
  use_pattern_detection :: bool
  use_context_analysis :: bool

record AppState =
  currentDocument :: "Document option"
  currentAnalysis :: "Analysis option"
  documents :: "Document list"
  analyses :: "string \<rightharpoonup> Analysis"
  isLoading :: bool
  error :: "string option"
  redactionConfig :: RedactionConfig

text \<open>
  What a callback reads from the outside: \<open>Date.now()\<close> and the base-36 digits of
  \<open>Math.random().toString(36).substr(2, 9)\<close>, at the invocation for the array element
  with the given index.
\<close>

record Env =
  clock :: "nat \<Rightarrow> nat"
  rand36 :: "nat \<Rightarrow> string"

text \<open>A non-negative integer in a template literal: its decimal digits.\<close>

function show_nat :: "nat \<Rightarrow> string" where
  "show_nat n =
     (if n < 10 then [''0123456789'' ! n]
      else show_nat (n div 10) @ [''0123456789'' ! (n mod 10)])"
  by pat_completeness auto
termination
  by (relation "measure id") auto

declare show_nat.simps [simp del]

text \<open>\<open>Array.prototype.findIndex\<close>: the first index whose element satisfies the test, or \<open>-1\<close>.\<close>

fun findIndex_from :: "('a \<Rightarrow> bool) \<Rightarrow> 'a list \<Rightarrow> nat \<Rightarrow> int" where
  "findIndex_from P [] k = - 1"
| "findIndex_from P (y # ys) k = (if P y then int k else findIndex_from P ys (Suc k))"

definition findIndex :: "('a \<Rightarrow> bool) \<Rightarrow> 'a list \<Rightarrow> int" where
  "findIndex P xs = findIndex_from P xs 0"

definition setCurrentDocument :: "AppState \<Rightarrow> Document option \<Rightarrow> AppState" where
  "setCurrentDocument state document = state\<lparr>currentDocument := document\<rparr>"

definition setCurrentAnalysis :: "AppState \<Rightarrow> Analysis option \<Rightarrow> AppState" where
  "setCurrentAnalysis state analysis = state\<lparr>currentAnalysis := analysis\<rparr>"

definition addDocument :: "AppState \<Rightarrow> Document \<Rightarrow> AppState" where
  "addDocument state document =
     (let existingIndex = findIndex (\<lambda>d. doc_id d = doc_id document) (documents state) in
      if existingIndex \<ge> 0
      then state\<lparr>documents := (documents state)[nat existingIndex := document]\<rparr>
      else state\<lparr>documents := documents state @ [document]\<rparr>)"

text \<open>
  \<open>addAnalysis\<close>: the \<open>map\<close> copies every detection with the id
  \<open>det_${Date.now()}_${Math.random().toString(36).substr(2, 9)}\<close>.
\<close>

definition freshDetectionId :: "Env \<Rightarrow> nat \<Rightarrow> string" where
  "freshDetectionId env i = ''det_'' @ show_nat (clock env i) @ ''_'' @ rand36 env i"

definition detectionsWithIds :: "Env \<Rightarrow> Detection list \<Rightarrow> Detection list" where
  "detectionsWithIds env ds =
     map (\<lambda>(i, detection). detection\<lparr>d_id := freshDetectionId env i\<rparr>) (enumerate 0 ds)"

definition addAnalysis :: "Env \<Rightarrow> AppState \<Rightarrow> Analysis \<Rightarrow> AppState" where
  "addAnalysis env state analysis =
     state\<lparr>analyses := (analyses state)
       (a_id analysis \<mapsto> analysis\<lparr>detections := detectionsWithIds env (detections analysis)\<rparr>)\<rparr>"

text \<open>
  \<open>Partial<Detection>\<close>: every property may be absent; \<open>Object.assign\<close> copies the
  properties that are present.
\<close>

record DetectionUpdates =
  u_text :: "string option"
  u_category :: "string option"
  u_confidence :: "real option"
  u_page_number :: "real option"
  u_start_pos :: "real option"
  u_end_pos :: "real option"
  u_detection_reason :: "string option"
  u_pattern_name :: "string option option"
  u_context :: "string option option"
  u_approved :: "bool option"
  u_id :: "string option"

definition assign :: "Detection \<Rightarrow> DetectionUpdates \<Rightarrow> Detection" where
  "assign d u =
     \<lparr>d_text = (case u_text u of None \<Rightarrow> d_text d | Some v \<Rightarrow> v),
      d_category = (case u_category u of None \<Rightarrow> d_category d | Some v \<Rightarrow> v),
      d_confidence = (case u_confidence u of None \<Rightarrow> d_confidence d | Some v \<Rightarrow> v),
      d_page_number = (case u_page_number u of None \<Rightarrow> d_page_number d | Some v \<Rightarrow> v),
      d_start_pos = (case u_start_pos u of None \<Rightarrow> d_start_pos d | Some v \<Rightarrow> v),
      d_end_pos = (case u_end_pos u of None \<Rightarrow> d_end_pos d | Some v \<Rightarrow> v),
      d_detection_reason =
        (case u_detection_reason u of None \<Rightarrow> d_detection_reason d | Some v \<Rightarrow> v),
      d_pattern_name = (case u_pattern_name u of None \<Rightarrow> d_pattern_name d | Some v \<Rightarrow> v),
      d_context = (case u_context u of None \<Rightarrow> d_context d | Some v \<Rightarrow> v),
      d_approved = (case u_approved u of None \<Rightarrow> d_approved d | Some v \<Rightarrow> v),
      d_id = (case u_id u of None \<Rightarrow> d_id d | Some v \<Rightarrow> v)\<rparr>"

text \<open>
  The store's producer works on a draft of the state: the detection changed inside
  \<open>currentAnalysis\<close> shows in the new \<open>currentAnalysis\<close>, and the same analysis is
  assigned to \<open>analyses[currentAnalysis.id]\<close>.
\<close>

definition updateDetection :: "AppState \<Rightarrow> string \<Rightarrow> DetectionUpdates \<Rightarrow> AppState" where
  "updateDetection state detectionId updates =
     (case currentAnalysis state of
        None \<Rightarrow> state
      | Some ca \<Rightarrow>
          (let detectionIndex = findIndex (\<lambda>d. d_id d = detectionId) (detections ca) in
           if detectionIndex \<ge> 0 then
             (let ca' = ca\<lparr>detections := (detections ca)
                    [nat detectionIndex := assign (detections ca ! nat detectionIndex) updates]\<rparr>
              in state\<lparr>currentAnalysis := Some ca',
                       analyses := (analyses state)(a_id ca' \<mapsto> ca')\<rparr>)
           else state))"

definition setLoading :: "AppState \<Rightarrow> bool \<Rightarrow> AppState" where
  "setLoading state loading = state\<lparr>isLoading := loading\<rparr>"

definition setError :: "AppState \<Rightarrow> string option \<Rightarrow> AppState" where
  "setError state e = state\<lparr>error := e\<rparr>"

definition approveAllDetections :: "AppState \<Rightarrow> AppState" where
  "approveAllDetections state =
     (case currentAnalysis state of
        None \<Rightarrow> state
      | Some ca \<Rightarrow>
          (let ca' = ca\<lparr>detections :=
                 map (\<lambda>detection. detection\<lparr>d_approved := True\<rparr>) (detections ca)\<rparr>
           in state\<lparr>currentAnalysis := Some ca',
                    analyses := (analyses state)(a_id ca' \<mapsto> ca')\<rparr>))"

definition rejectAllDetections :: "AppState \<Rightarrow> AppState" where
  "rejectAllDetections state =
     (case currentAnalysis state of
        None \<Rightarrow> state
      | Some ca \<Rightarrow>
          (let ca' = ca\<lparr>detections :=
                 map (\<lambda>detection. detection\<lparr>d_approved := False\<rparr>) (detections ca)\<rparr>
           in state\<lparr>currentAnalysis := Some ca',
                    analyses := (analyses state)(a_id ca' \<mapsto> ca')\<rparr>))"

subsection \<open>Example values\<close>

definition exampleEnv :: Env where
  "exampleEnv = \<lparr>clock = (\<lambda>i. 1700000000000), rand36 = (\<lambda>i. if i = 0 then ''k3x9a1b2c'' else ''z8y7x6w5v'')\<rparr>"

definition exampleEnvLater :: Env where
  "exampleEnvLater = \<lparr>clock = (\<lambda>i. 1700000000500),
     rand36 = (\<lambda>i. if i = 0 then ''p0q1r2s3t'' else ''m4n5o6p7q'')\<rparr>"

definition exampleDetection :: "string \<Rightarrow> string \<Rightarrow> Detection" where
  "exampleDetection i t =
     \<lparr>d_text = t, d_category = ''N.J.S.A. 47:1A-1.1(20)'', d_confidence = 0.95,
      d_page_number = 0, d_start_pos = 0, d_end_pos = 0,
      d_detection_reason = ''Pattern match'', d_pattern_name = None, d_context = None,
      d_approved = True, d_id = i\<rparr>"

definition exampleStoredAnalysis :: Analysis where
  "exampleStoredAnalysis =
     \<lparr>a_id = ''analysis_1'', a_document_id = ''doc_1'', total_detections = 2,
      high_confidence_count = 2, categories = [''N.J.S.A. 47:1A-1.1(20)''],
      detections = [exampleDetection ''d1'' ''John Smith'', exampleDetection ''d2'' ''123-45-6789''],
      processing_time = 1.5\<rparr>"

definition exampleDocument :: Document where
  "exampleDocument =
     \<lparr>doc_id = ''doc_1'', filename = ''report.pdf'', size = 1024, page_count = 1,
      uploaded_at = ''2024-01-01T00:00:00Z'',
      metadata = \<lparr>m_page_count = 1, m_content_type = Some ''application/pdf'',
                   m_original_filename = Some ''report.pdf'', m_other = []\<rparr>\<rparr>"

definition defaultRedactionConfig :: RedactionConfig where
  "defaultRedactionConfig =
     \<lparr>document_type = ''general'', confidence_threshold = 0.1,
      enabled_categories = [''N.J.S.A. 47:1A-1'', ''N.J.S.A. 47:1A-1.1(20)'',
        ''N.J.S.A. 47:1A-1.1(5)'', ''N.J.S.A. 47:1A-1.1(28)'', ''N.J.S.A. 47:1A-1.1(9)'',
        ''N.J.S.A. 47:1A-1.1(23)''],
      use_ai_detection = True, use_pattern_detection = True, use_context_analysis = True\<rparr>"

definition initialState :: AppState where
  "initialState =
     \<lparr>currentDocument = None, currentAnalysis = None, documents = [], analyses = Map.empty,
      isLoading = False, error = None, redactionConfig = defaultRedactionConfig\<rparr>"


definition reviewState :: AppState where
  "reviewState = initialState\<lparr>currentDocument := Some exampleDocument,
     currentAnalysis := Some exampleStoredAnalysis\<rparr>"

definition rejectUpdate :: DetectionUpdates where
  "rejectUpdate =
     \<lparr>u_text = None, u_category = None, u_confidence = None, u_page_number = None,
      u_start_pos = None, u_end_pos = None, u_detection_reason = None, u_pattern_name = None,
      u_context = None, u_approved = Some False, u_id = None\<rparr>"

section \<open>Document review page (pages/DocumentReview.tsx)\<close>

text \<open>
  What a rejected promise carries: an \<open>Error\<close> with its message, or some other value.
\<close>

datatype JsError = Error string | Thrown string

text \<open>
  \<open>PartialDetection\<close>: a detection of the engine's response, where \<open>id\<close>, \<open>approved\<close>,
  \<open>detection_reason\<close>, \<open>page_number\<close>, \<open>start_pos\<close>, \<open>end_pos\<close> and \<open>confidence\<close> may be
  missing. The response may also lack its \<open>detections\<close>.
\<close>

record PartialDetection =
  p_text :: string
  p_category :: string
  p_pattern_name :: "string option"
  p_context :: "string option"
  p_id :: "string option"
  p_approved :: "bool option"
  p_detection_reason :: "string option"
  p_page_number :: "real option"
  p_start_pos :: "real option"
  p_end_pos :: "real option"
  p_confidence :: "real option"

record AnalysisResult =
  res_id :: string
  res_document_id :: string
  res_total_detections :: real
  res_high_confidence_count :: real
  res_categories :: "string list"
  res_detections :: "PartialDetection list option"
  res_processing_time :: real

text \<open>
  \<open>x || d\<close>: the default is taken when \<open>x\<close> is falsy, that is \<open>undefined\<close>, the empty
  string or the number \<open>0\<close>.
\<close>

definition or_string :: "string option \<Rightarrow> string \<Rightarrow> string" where
  "or_string x d = (case x of None \<Rightarrow> d | Some s \<Rightarrow> if s = [] then d else s)"

definition or_number :: "real option \<Rightarrow> real \<Rightarrow> real" where
  "or_number x d = (case x of None \<Rightarrow> d | Some n \<Rightarrow> if n = 0 then d else n)"

definition formatDetection :: "Env \<Rightarrow> nat \<Rightarrow> PartialDetection \<Rightarrow> Detection" where
  "formatDetection env index d =
     \<lparr>d_text = p_text d,
      d_category = p_category d,
      d_confidence = or_number (p_confidence d) 0.9,
      d_page_number = or_number (p_page_number d) 0,
      d_start_pos = or_number (p_start_pos d) 0,
      d_end_pos = or_number (p_end_pos d) 0,
      d_detection_reason = or_string (p_detection_reason d) ''Automatically detected'',
      d_pattern_name = p_pattern_name d,
      d_context = p_context d,
      d_approved = (p_approved d \<noteq> Some False),
      d_id = or_string (p_id d)
               (''detection-'' @ show_nat index @ ''-'' @ show_nat (clock env index))\<rparr>"

definition formattedResult :: "Env \<Rightarrow> AnalysisResult \<Rightarrow> Analysis" where
  "formattedResult env result =
     \<lparr>a_id = res_id result,
      a_document_id = res_document_id result,
      total_detections = res_total_detections result,
      high_confidence_count = res_high_confidence_count result,
      categories = res_categories result,
      detections =
        map (\<lambda>(index, d). formatDetection env index d)
          (enumerate 0 (case res_detections result of None \<Rightarrow> [] | Some ds \<Rightarrow> ds)),
      processing_time = res_processing_time result\<rparr>"

text \<open>The configuration the page sends: its own \<open>defaultRedactionConfig\<close>.\<close>

definition pageRedactionConfig :: RedactionConfig where
  "pageRedactionConfig =
     \<lparr>document_type = ''general'', confidence_threshold = 0.05,
      enabled_categories = [''N.J.S.A. 47:1A-1'', ''N.J.S.A. 47:1A-1.1(20)'',
        ''N.J.S.A. 47:1A-1.1(5)'', ''N.J.S.A. 47:1A-1.1(28)'', ''N.J.S.A. 47:1A-1.1(9)'',
        ''N.J.S.A. 47:1A-1.1(23)''],
      use_ai_detection = True, use_pattern_detection = True, use_context_analysis = True\<rparr>"

text \<open>
  The page as a state: the store, the \<open>isAnalyzingRef\<close> guard, and what the handlers have
  done to the outside so far: the analysis and redaction requests sent, the downloads
  triggered, the notifications shown.
\<close>

datatype Toast = ToastLoading string | ToastSuccess string | ToastError string

type_synonym Blob = "nat list"

record Page =
  store :: AppState
  isAnalyzingRef :: bool
  analyzeRequests :: "(string \<times> RedactionConfig) list"
  redactRequests :: "(string \<times> Detection list) list"
  downloads :: "(string \<times> Blob) list"
  toasts :: "Toast list"

text \<open>
  \<open>startAnalysis\<close> is asynchronous. Up to its \<open>await\<close> it runs without interruption: it
  returns \<open>null\<close> at once when the guard is set, and otherwise sets the guard and sends the
  request. It resumes when the request settles, on the page as it is then.
\<close>

datatype CallOutcome = ReturnedNull | Pending

definition startAnalysis_call :: "Page \<Rightarrow> string \<Rightarrow> CallOutcome \<times> Page" where
  "startAnalysis_call page docId =
     (if isAnalyzingRef page then (ReturnedNull, page)
      else (Pending,
        page\<lparr>isAnalyzingRef := True,
             toasts := toasts page @ [ToastLoading ''Starting analysis...''],
             analyzeRequests := analyzeRequests page @ [(docId, pageRedactionConfig)]\<rparr>))"

text \<open>
  The rest of \<open>startAnalysis\<close>: \<open>Inr\<close> is the value the promise resolves with, \<open>Inl\<close> the
  error thrown again by the \<open>catch\<close>; the \<open>finally\<close> clears the guard on both paths.
\<close>

definition startAnalysis_settle :: "Env \<Rightarrow> Page \<Rightarrow> JsError + AnalysisResult \<Rightarrow>
    (JsError + Analysis) \<times> Page" where
  "startAnalysis_settle env page response =
     (case response of
        Inr result \<Rightarrow>
          (let formatted = formattedResult env result in
           (Inr formatted,
            page\<lparr>store := setCurrentAnalysis (store page) (Some formatted),
                 toasts := toasts page @ [ToastSuccess ''Analysis completed!''],
                 isAnalyzingRef := False\<rparr>))
      | Inl e \<Rightarrow>
          (Inl e,
           page\<lparr>toasts := toasts page @
                  [ToastError (''Analysis failed: '' @
                     (case e of Error message \<Rightarrow> message | Thrown v \<Rightarrow> ''Unknown error''))],
                isAnalyzingRef := False\<rparr>))"

text \<open>
  \<open>handleApplyRedactions\<close>, with the outcome of the redaction request as an argument: it
  is read only when the request has been sent. The document and the detections are those of
  the render in which the handler was created.
\<close>

definition redactionPayload :: "Env \<Rightarrow> Detection list \<Rightarrow> Detection list" where
  "redactionPayload env ds =
     map (\<lambda>(i, d). d\<lparr>d_detection_reason :=
                        (if d_detection_reason d = [] then ''Manually approved''
                         else d_detection_reason d),
                      d_id :=
                        (if d_id d = []
                         then ''manual-'' @ show_nat (clock env i) @ ''-'' @ rand36 env i
                         else d_id d),
                      d_approved := True,
                      d_pattern_name := Some (or_string (d_pattern_name d) []),
                      d_context := Some (or_string (d_context d) [])\<rparr>)
       (enumerate 0 ds)"

definition handleApplyRedactions :: "Env \<Rightarrow> Page \<Rightarrow> JsError + Blob \<Rightarrow> Page" where
  "handleApplyRedactions env page response =
     (case (currentDocument (store page), currentAnalysis (store page)) of
        (Some doc, Some analysis) \<Rightarrow>
          (let approvedDetections = filter d_approved (detections analysis) in
           if length approvedDetections = 0
           then page\<lparr>toasts := toasts page @ [ToastError ''No redactions approved'']\<rparr>
           else
             (let sent = page\<lparr>redactRequests := redactRequests page @
                           [(doc_id doc, redactionPayload env approvedDetections)]\<rparr>
              in case response of
                   Inr redactedPdf \<Rightarrow>
                     sent\<lparr>downloads := downloads sent @
                            [(''redacted_'' @ filename doc, redactedPdf)]\<rparr>
                 | Inl e \<Rightarrow> sent))
      | _ \<Rightarrow> page\<lparr>toasts := toasts page @ [ToastError ''No document or analysis available'']\<rparr>)"

text \<open>
  Two calls of \<open>startAnalysis\<close> in rapid succession for one document: the second call
  arrives before the request of the first has settled.
\<close>

definition twoCalls :: "Env \<Rightarrow> Page \<Rightarrow> string \<Rightarrow> JsError + AnalysisResult \<Rightarrow>
    CallOutcome \<times> CallOutcome \<times> (JsError + Analysis) \<times> Page" where
  "twoCalls env page docId response =
     (let (first, page1) = startAnalysis_call page docId;
          (second, page2) = startAnalysis_call page1 docId;
          (settled, page3) = startAnalysis_settle env page2 response
      in (first, second, settled, page3))"

subsection \<open>Example values\<close>

definition enginePartial :: "string \<Rightarrow> string \<Rightarrow> real \<Rightarrow> PartialDetection" where
  "enginePartial i t c =
     \<lparr>p_text = t, p_category = ''N.J.S.A. 47:1A-1.1(20)'', p_pattern_name = None,
      p_context = None, p_id = Some i, p_approved = Some True,
      p_detection_reason = Some ''Pattern match'', p_page_number = Some 0,
      p_start_pos = Some 0, p_end_pos = Some 0, p_confidence = Some c\<rparr>"

definition exampleResult :: AnalysisResult where
  "exampleResult =
     \<lparr>res_id = ''analysis_1'', res_document_id = ''doc_1'', res_total_detections = 2,
      res_high_confidence_count = 1, res_categories = [''N.J.S.A. 47:1A-1.1(20)''],
      res_detections = Some [enginePartial ''d1'' ''John Smith'' 0.95,
                             enginePartial ''d2'' ''123-45-6789'' 0],
      res_processing_time = 1.5\<rparr>"

definition initialPage :: Page where
  "initialPage =
     \<lparr>store = initialState\<lparr>currentDocument := Some exampleDocument, documents := [exampleDocument]\<rparr>,
      isAnalyzingRef = False, analyzeRequests = [], redactRequests = [], downloads = [],
      toasts = []\<rparr>"

definition reviewPage :: Page where
  "reviewPage = initialPage\<lparr>store := reviewState\<rparr>"

definition rejectedPage :: Page where
  "rejectedPage = initialPage\<lparr>store := rejectAllDetections reviewState\<rparr>"

definition examplePdf :: Blob where
  "examplePdf = [37, 80, 68, 70]"

section \<open>Properties of the primitives\<close>

lemma take_eq_imp_le:
  assumes "take (length s) xs = s"
  shows "length s \<le> length xs"
proof -
  have "length (take (length s) xs) = length s" by (simp only: assms)
  then have "min (length s) (length xs) = length s" by (simp only: length_take)
  then show ?thesis by arith
qed

lemma search_from_found:
  "search_from s u k = i \<Longrightarrow> 0 \<le> i \<Longrightarrow>
     k \<le> nat i \<and> (nat i - k) + length s \<le> length u \<and> take (length s) (drop (nat i - k) u) = s"
proof (induction u arbitrary: k)
  case Nil
  then show ?case by (auto split: if_splits)
next
  case (Cons c t)
  show ?case
  proof (cases "take (length s) (c # t) = s")
    case True
    then have "length s \<le> length (c # t)"
      by (rule take_eq_imp_le)
    with True Cons.prems show ?thesis by auto
  next
    case False
    with Cons.prems have rec: "search_from s t (Suc k) = i" by simp
    from Cons.IH [OF rec Cons.prems(2)]
    have a: "Suc k \<le> nat i" and b: "(nat i - Suc k) + length s \<le> length t"
      and c: "take (length s) (drop (nat i - Suc k) t) = s" by auto
    from a have e: "nat i - k = Suc (nat i - Suc k)" by arith
    show ?thesis using a b c by (simp add: e)
  qed
qed

lemma indexOf_found:
  assumes "indexOf t s pos = i" and "0 \<le> i" and "pos \<le> length t"
  shows "pos \<le> nat i" and "nat i + length s \<le> length t"
    and "take (length s) (drop (nat i) t) = s"
proof -
  from assms have sf: "search_from s (drop pos t) pos = i"
    by (simp add: indexOf_def min_def)
  from search_from_found [OF sf assms(2)]
  have a: "pos \<le> nat i" and b: "(nat i - pos) + length s \<le> length (drop pos t)"
    and c: "take (length s) (drop (nat i - pos) (drop pos t)) = s" by auto
  show "pos \<le> nat i" by (rule a)
  show "nat i + length s \<le> length t" using a b assms(3) by simp
  show "take (length s) (drop (nat i) t) = s" using a c by simp
qed

section \<open>The segments partition the text\<close>

lemma covers_pushRedaction:
  assumes "covers t st"
  shows "covers t (pushRedaction t st redaction)"
proof -
  obtain segments cur where st: "st = (segments, cur)" by (cases st)
  from assms st have le: "cur \<le> length t"
    and cc: "concat (map seg_text segments) = take cur t" by (simp_all add: covers_def)
  define s where "s = r_text (item redaction)"
  define i where "i = indexOf t s cur"
  show ?thesis
  proof (cases "0 \<le> i")
    case False
    then show ?thesis using assms st by (simp add: pushRedaction_def i_def s_def Let_def)
  next
    case True
    from indexOf_found [OF i_def [symmetric] True le]
    have a: "cur \<le> nat i" and b: "nat i + length s \<le> length t"
      and c: "take (length s) (drop (nat i) t) = s" by auto
    have pre: "take cur t @ take (nat i - cur) (drop cur t) = take (nat i) t"
      using a by (metis le_add_diff_inverse take_add)
    have full: "take (nat i) t @ s = take (nat i + length s) t"
      using c by (simp add: take_add)
    have eqcur: "\<not> cur < nat i \<Longrightarrow> take cur t = take (nat i) t"
      using a by simp
    show ?thesis
      using True b cc pre full eqcur
      by (auto simp: pushRedaction_def st covers_def Let_def i_def [symmetric] s_def [symmetric]
          slice_def)
  qed
qed

lemma covers_foldl:
  "covers t st \<Longrightarrow> covers t (foldl (pushRedaction t) st rs)"
  by (induction rs arbitrary: st) (simp_all add: covers_pushRedaction)

lemma remainingText_concat:
  "covers t st \<Longrightarrow> concat (map seg_text (remainingText t st)) = t"
  by (cases st) (auto simp: covers_def remainingText_def slice_from_def)

lemma render_segments_concat:
  assumes "redactions \<noteq> []"
  shows "concat (map seg_text (segmentsOf (renderTextWithHighlights analysis heap t redactions))) = t"
proof -
  have "covers t ([], 0)" by (simp add: covers_def)
  then have "covers t (foldl (pushRedaction t) ([], 0) (sortedRedactions analysis heap t redactions))"
    by (rule covers_foldl)
  with assms show ?thesis
    by (simp add: renderTextWithHighlights_def remainingText_concat)
qed

text \<open>
  C1. For every page text and every list of redactions, concatenating the texts of the
  segments that renderTextWithHighlights produces gives back the page text exactly. With an
  empty list the function returns the whole text as one plain block; otherwise it returns
  the list of segments.
\<close>

theorem C1_segments_reconstruct_text:
  "renderedText (renderTextWithHighlights analysis heap t redactions) = t \<and>
   (if redactions = [] then renderTextWithHighlights analysis heap t redactions = PlainText t
    else concat (map seg_text
           (segmentsOf (renderTextWithHighlights analysis heap t redactions))) = t)"
proof (cases "redactions = []")
  case True
  then show ?thesis by (simp add: renderTextWithHighlights_def)
next
  case False
  from render_segments_concat [OF False, of analysis heap t] False show ?thesis
    by (simp add: renderTextWithHighlights_def)
qed

theorem C1_segments_reconstruct_text_witness:
  "renderTextWithHighlights (Some exampleAnalysis) exampleHeap exampleText [0, 1]
     = HighlightedText exampleSegments \<and>
   concat (map seg_text exampleSegments) = exampleText \<and>
   renderTextWithHighlights (Some exampleAnalysis) exampleHeap exampleText [] = PlainText exampleText"
proof -
  have r: "renderTextWithHighlights (Some exampleAnalysis) exampleHeap exampleText [0, 1]
     = HighlightedText exampleSegments" by code_simp
  from C1_segments_reconstruct_text [of "Some exampleAnalysis" exampleHeap exampleText "[0, 1]"]
  have 1: "concat (map seg_text exampleSegments) = exampleText" unfolding r by simp
  from C1_segments_reconstruct_text [of "Some exampleAnalysis" exampleHeap exampleText "[]"]
  have 2: "renderTextWithHighlights (Some exampleAnalysis) exampleHeap exampleText [] = PlainText exampleText"
    by simp
  from r 1 2 show ?thesis by (intro conjI)
qed

section \<open>Redacted ranges never overlap\<close>

lemma redactedSpans_member:
  "(a, b, s) \<in> set (redactedSpans off segs) \<Longrightarrow>
     off \<le> a \<and> b = a + length s \<and> b \<le> off + length (concat (map seg_text segs)) \<and>
     take (length s) (drop (a - off) (concat (map seg_text segs))) = s"
proof (induction segs arbitrary: off)
  case Nil
  then show ?case by simp
next
  case (Cons x xs)
  show ?case
  proof (cases "isRedacted x \<and> (a, b, s) = (off, off + length (seg_text x), seg_text x)")
    case True
    then show ?thesis by simp
  next
    case False
    with Cons.prems have "(a, b, s) \<in> set (redactedSpans (off + length (seg_text x)) xs)"
      by (auto split: if_splits)
    from Cons.IH [OF this]
    have 1: "off + length (seg_text x) \<le> a" and 2: "b = a + length s"
      and 3: "b \<le> off + length (seg_text x) + length (concat (map seg_text xs))"
      and 4: "take (length s) (drop (a - (off + length (seg_text x))) (concat (map seg_text xs))) = s"
      by auto
    have "a - off = length (seg_text x) + (a - (off + length (seg_text x)))" using 1 by arith
    then have "drop (a - off) (seg_text x @ concat (map seg_text xs))
        = drop (a - (off + length (seg_text x))) (concat (map seg_text xs))"
      by simp
    with 1 2 3 4 show ?thesis by simp
  qed
qed

lemma redactedSpans_ordered:
  "sorted_wrt (\<lambda>p q. fst (snd p) \<le> fst q) (redactedSpans off segs)"
proof (induction segs arbitrary: off)
  case Nil
  then show ?case by simp
next
  case (Cons x xs)
  have later: "\<And>q. q \<in> set (redactedSpans (off + length (seg_text x)) xs) \<Longrightarrow>
      off + length (seg_text x) \<le> fst q"
    using redactedSpans_member by (metis prod.collapse)
  show ?case using Cons.IH later by (simp add: sorted_wrt_append)
qed

lemma ordered_no_overlap:
  assumes "sorted_wrt (\<lambda>p q. fst (snd p) \<le> fst q) sp"
    and "i < length sp" and "j < length sp" and "i \<noteq> j"
  shows "\<not> overlap (sp ! i) (sp ! j)"
proof (cases "i < j")
  case True
  with assms have "fst (snd (sp ! i)) \<le> fst (sp ! j)"
    by (simp add: sorted_wrt_iff_nth_less)
  then show ?thesis by (simp add: overlap_def)
next
  case False
  with assms have "j < i" by simp
  with assms have "fst (snd (sp ! j)) \<le> fst (sp ! i)"
    by (simp add: sorted_wrt_iff_nth_less)
  then show ?thesis by (simp add: overlap_def)
qed

lemma pushRedaction_skip:
  "indexOf t (r_text (item r)) cur < 0 \<Longrightarrow> pushRedaction t (segs, cur) r = (segs, cur)"
  by (simp add: pushRedaction_def Let_def)

text \<open>
  C6. No two redacted segments of the output cover overlapping character ranges of the
  input text: the ranges of the redacted segments are pairwise disjoint, each lies inside
  the text and holds exactly the segment's text there; and a redaction whose text is not
  found at or after the cursor is skipped, leaving segments and cursor as they were.
\<close>

theorem C6_redacted_ranges_disjoint:
  fixes analysis heap t redactions
  defines "sp \<equiv> redactedSpans 0 (segmentsOf (renderTextWithHighlights analysis heap t redactions))"
  shows "(\<forall>i j. i < length sp \<and> j < length sp \<and> i \<noteq> j \<longrightarrow> \<not> overlap (sp ! i) (sp ! j)) \<and>
         (\<forall>a b s. (a, b, s) \<in> set sp \<longrightarrow> a \<le> b \<and> b \<le> length t \<and> slice t a b = s) \<and>
         (\<forall>segs cur r. indexOf t (r_text (item r)) cur < 0 \<longrightarrow>
            pushRedaction t (segs, cur) r = (segs, cur))"
proof -
  have 1: "\<not> overlap (sp ! i) (sp ! j)" if "i < length sp \<and> j < length sp \<and> i \<noteq> j" for i j
    using that ordered_no_overlap [OF redactedSpans_ordered] by (simp add: sp_def)
  have 2: "a \<le> b \<and> b \<le> length t \<and> slice t a b = s" if m: "(a, b, s) \<in> set sp" for a b s
  proof (cases "redactions = []")
    case True
    with m show ?thesis by (simp add: sp_def renderTextWithHighlights_def)
  next
    case False
    from redactedSpans_member [OF m [unfolded sp_def]] render_segments_concat [OF False]
    show ?thesis by (simp add: slice_def)
  qed
  have 3: "pushRedaction t (segs, cur) r = (segs, cur)"
    if "indexOf t (r_text (item r)) cur < 0" for segs cur r
    using that by (rule pushRedaction_skip)
  from 1 2 3 show ?thesis by blast
qed

theorem C6_redacted_ranges_disjoint_witness:
  "redactedSpans 0 (segmentsOf
      (renderTextWithHighlights (Some exampleAnalysis) exampleHeap exampleText [0, 1]))
     = [(6, 16, ''John Smith''), (23, 34, ''123-45-6789'')] \<and>
   \<not> overlap (6, 16, ''John Smith'') (23, 34, ''123-45-6789'') \<and>
   slice exampleText 23 34 = ''123-45-6789'' \<and>
   indexOf exampleText ''John Smith'' 16 < 0 \<and>
   pushRedaction exampleText ([], 16) \<lparr>item = exampleHeap 0, globalIndex = 0\<rparr> = ([], 16)"
proof -
  have sp: "redactedSpans 0 (segmentsOf
      (renderTextWithHighlights (Some exampleAnalysis) exampleHeap exampleText [0, 1]))
     = [(6, 16, ''John Smith''), (23, 34, ''123-45-6789'')]"
    by code_simp
  have nf: "indexOf exampleText (r_text (item \<lparr>item = exampleHeap 0, globalIndex = 0\<rparr>)) 16 < 0"
    by code_simp
  note T = C6_redacted_ranges_disjoint [of "Some exampleAnalysis" exampleHeap exampleText "[0, 1]",
      unfolded sp]
  from T have "(0::nat) < length [(6::nat, 16::nat, ''John Smith''), (23, 34, ''123-45-6789'')] \<and>
      (1::nat) < length [(6::nat, 16::nat, ''John Smith''), (23, 34, ''123-45-6789'')] \<and> (0::nat) \<noteq> 1
      \<longrightarrow> \<not> overlap ([(6, 16, ''John Smith''), (23, 34, ''123-45-6789'')] ! 0)
            ([(6, 16, ''John Smith''), (23, 34, ''123-45-6789'')] ! 1)"
    by blast
  then have a: "\<not> overlap (6, 16, ''John Smith'') (23, 34, ''123-45-6789'')" by simp
  from T have b: "slice exampleText 23 34 = ''123-45-6789''" by simp
  from T nf have c: "pushRedaction exampleText ([], 16) \<lparr>item = exampleHeap 0, globalIndex = 0\<rparr>
      = ([], 16)" by blast
  from nf have d: "indexOf exampleText ''John Smith'' 16 < 0" by (simp add: exampleHeap_def)
  from sp a b c d show ?thesis by blast
qed

section \<open>The tag of a redacted segment\<close>

lemma array_indexOf_from_found:
  "x \<in> set xs \<Longrightarrow> \<exists>j < length xs. array_indexOf_from xs x k = int (k + j) \<and> xs ! j = x"
proof (induction xs arbitrary: k)
  case Nil
  then show ?case by simp
next
  case (Cons y ys)
  show ?case
  proof (cases "y = x")
    case True
    then show ?thesis by (intro exI [of _ 0]) simp
  next
    case False
    with Cons.prems have "x \<in> set ys" by simp
    from Cons.IH [OF this, of "Suc k"] obtain j where
      "j < length ys" "array_indexOf_from ys x (Suc k) = int (Suc k + j)" "ys ! j = x" by blast
    with False show ?thesis by (intro exI [of _ "Suc j"]) simp
  qed
qed

lemma array_indexOf_found:
  assumes "x \<in> set xs"
  obtains j where "j < length xs" and "array_indexOf xs x = int j" and "xs ! j = x"
  using array_indexOf_from_found [OF assms, of 0] by (auto simp: array_indexOf_def)

lemma subseq_set_mono: "subseq xs ys \<Longrightarrow> set xs \<subseteq> set ys"
  by (induction rule: list_emb.induct) auto

lemma subseq_head_position:
  assumes "subseq rs (x # ar)" and "x \<notin> set ar" and "idx < length rs" and "rs ! idx = x"
  shows "idx = 0"
proof (cases rs)
  case Nil
  with assms show ?thesis by simp
next
  case (Cons y rs')
  show ?thesis
  proof (cases "y = x")
    case True
    with assms Cons have "subseq rs' ar" by simp
    then have "set rs' \<subseteq> set ar" by (rule subseq_set_mono)
    with assms(2) have "x \<notin> set rs'" by blast
    show ?thesis
    proof (cases idx)
      case 0
      then show ?thesis .
    next
      case (Suc k)
      with assms(3,4) Cons have "k < length rs'" and "rs' ! k = x" by simp_all
      then have "x \<in> set rs'" by (metis nth_mem)
      with \<open>x \<notin> set rs'\<close> show ?thesis by simp
    qed
  next
    case False
    with assms Cons have "subseq rs ar" by simp
    then have "set rs \<subseteq> set ar" by (rule subseq_set_mono)
    moreover from assms(3,4) have "x \<in> set rs" by (metis nth_mem)
    ultimately show ?thesis using assms(2) by blast
  qed
qed

lemma globalIndexOf_selection:
  assumes "distinct (da_redactions a)" and "subseq rs (da_redactions a)" and "idx < length rs"
  shows "\<exists>j < length (da_redactions a).
           globalIndexOf (Some a) (rs ! idx) idx = int j \<and> da_redactions a ! j = rs ! idx"
proof -
  from assms(2) have "set rs \<subseteq> set (da_redactions a)" by (rule subseq_set_mono)
  with assms(3) have mem: "rs ! idx \<in> set (da_redactions a)" by (metis nth_mem subsetD)
  from array_indexOf_found [OF mem] obtain j where j: "j < length (da_redactions a)"
    "array_indexOf (da_redactions a) (rs ! idx) = int j" "da_redactions a ! j = rs ! idx"
    by blast
  show ?thesis
  proof (cases "j = 0")
    case False
    with j show ?thesis by (auto simp: globalIndexOf_def)
  next
    case True
    from j(1) obtain x ar where ar: "da_redactions a = x # ar" by (cases "da_redactions a") auto
    with True j(3) have x: "rs ! idx = x" by simp
    from assms(1) ar have "x \<notin> set ar" by simp
    from subseq_head_position [OF assms(2) [unfolded ar] this assms(3) x] have "idx = 0" .
    with True j show ?thesis by (auto simp: globalIndexOf_def)
  qed
qed

lemma pushRedaction_segments:
  assumes "seg \<in> set (fst (pushRedaction t st r))" and "isRedacted seg"
  shows "seg \<in> set (fst st) \<or>
         seg = \<lparr>seg_text = r_text (item r), isRedacted = True, redactionIndex = Some (globalIndex r)\<rparr>"
  using assms by (cases st) (auto simp: pushRedaction_def Let_def split: if_splits)

lemma foldl_pushRedaction_segments:
  "seg \<in> set (fst (foldl (pushRedaction t) st rs)) \<Longrightarrow> isRedacted seg \<Longrightarrow>
     seg \<in> set (fst st) \<or>
     (\<exists>r \<in> set rs. seg = \<lparr>seg_text = r_text (item r), isRedacted = True,
                              redactionIndex = Some (globalIndex r)\<rparr>)"
proof (induction rs arbitrary: st)
  case Nil
  then show ?case by simp
next
  case (Cons r rs)
  from Cons.IH [of "pushRedaction t st r"] Cons.prems
  have "seg \<in> set (fst (pushRedaction t st r)) \<or>
     (\<exists>r \<in> set rs. seg = \<lparr>seg_text = r_text (item r), isRedacted = True,
                              redactionIndex = Some (globalIndex r)\<rparr>)" by simp
  then show ?case
  proof
    assume "seg \<in> set (fst (pushRedaction t st r))"
    from pushRedaction_segments [OF this Cons.prems(2)] show ?thesis by auto
  next
    assume "\<exists>r \<in> set rs. seg = \<lparr>seg_text = r_text (item r), isRedacted = True,
                              redactionIndex = Some (globalIndex r)\<rparr>"
    then show ?thesis by auto
  qed
qed

lemma remainingText_segments:
  "seg \<in> set (remainingText t st) \<Longrightarrow> isRedacted seg \<Longrightarrow> seg \<in> set (fst st)"
  by (cases st) (auto simp: remainingText_def split: if_splits)

lemma indexed_member:
  "x \<in> set (indexed analysis heap rs) \<Longrightarrow>
     \<exists>idx < length rs. x = \<lparr>item = heap (rs ! idx), globalIndex = globalIndexOf analysis (rs ! idx) idx\<rparr>"
proof -
  assume "x \<in> set (indexed analysis heap rs)"
  then obtain p where p: "p \<in> set (enumerate 0 rs)"
    and x: "x = \<lparr>item = heap (snd p), globalIndex = globalIndexOf analysis (snd p) (fst p)\<rparr>"
    by (auto simp: indexed_def)
  from p have "fst p < length rs" and "rs ! fst p = snd p"
    by (simp_all add: in_set_enumerate_eq)
  with x show ?thesis by (intro exI [of _ "fst p"]) simp
qed

lemma redacted_segment_origin:
  assumes "seg \<in> set (segmentsOf (renderTextWithHighlights analysis heap t redactions))"
    and "isRedacted seg"
  shows "\<exists>idx < length redactions.
           seg_text seg = r_text (heap (redactions ! idx)) \<and>
           redactionIndex seg = Some (globalIndexOf analysis (redactions ! idx) idx)"
proof (cases "redactions = []")
  case True
  with assms show ?thesis by (simp add: renderTextWithHighlights_def)
next
  case False
  with assms have "seg \<in> set (remainingText t
      (foldl (pushRedaction t) ([], 0) (sortedRedactions analysis heap t redactions)))"
    by (simp add: renderTextWithHighlights_def)
  from remainingText_segments [OF this assms(2)]
  have "seg \<in> set (fst (foldl (pushRedaction t) ([], 0) (sortedRedactions analysis heap t redactions)))" .
  from foldl_pushRedaction_segments [OF this assms(2)]
  obtain r where r: "r \<in> set (sortedRedactions analysis heap t redactions)"
    and seg: "seg = \<lparr>seg_text = r_text (item r), isRedacted = True,
                      redactionIndex = Some (globalIndex r)\<rparr>" by auto
  from r have "r \<in> set (indexed analysis heap redactions)"
    by (simp add: sortedRedactions_def)
  from indexed_member [OF this] seg show ?thesis by auto
qed


text \<open>
  Where the tag is the index in the analysis: without an analysis, every redacted segment
  is tagged with the position, in the list passed, of a redaction whose text is the
  segment's text. With an analysis whose redaction list holds distinct objects, and a list
  passed that is an order-preserving selection of it (as \<open>currentPageRedactions\<close> is), every
  redacted segment is tagged with the index in the analysis's redaction list of a passed
  redaction whose text is the segment's text. For the text
  "Name: John Smith, SSN: 123-45-6789" and the redactions "John Smith" (index 0) and
  "123-45-6789" (index 1), passed in this order, the output is exactly the four segments of
  the specification's example.
\<close>

lemma tag_of_matched_redaction:
  "(analysis = None \<longrightarrow>
      (\<forall>seg \<in> set (segmentsOf (renderTextWithHighlights analysis heap t redactions)).
         isRedacted seg \<longrightarrow>
         (\<exists>idx < length redactions. redactionIndex seg = Some (int idx) \<and>
            seg_text seg = r_text (heap (redactions ! idx))))) \<and>
   (\<forall>a. analysis = Some a \<and> distinct (da_redactions a) \<and> subseq redactions (da_redactions a) \<longrightarrow>
      (\<forall>seg \<in> set (segmentsOf (renderTextWithHighlights analysis heap t redactions)).
         isRedacted seg \<longrightarrow> tagsAnalysisIndex analysis heap redactions seg)) \<and>
   renderTextWithHighlights (Some exampleAnalysis) exampleHeap exampleText [0, 1] =
     HighlightedText exampleSegments"
proof -
  have 1: "\<exists>idx < length redactions. redactionIndex seg = Some (int idx) \<and>
            seg_text seg = r_text (heap (redactions ! idx))"
    if "analysis = None"
      and "seg \<in> set (segmentsOf (renderTextWithHighlights analysis heap t redactions))"
      and "isRedacted seg" for seg
    using redacted_segment_origin [OF that(2,3)] that(1) by (auto simp: globalIndexOf_def)
  have 2: "tagsAnalysisIndex analysis heap redactions seg"
    if a: "analysis = Some a \<and> distinct (da_redactions a) \<and> subseq redactions (da_redactions a)"
      and "seg \<in> set (segmentsOf (renderTextWithHighlights analysis heap t redactions))"
      and "isRedacted seg" for a seg
  proof -
    from redacted_segment_origin [OF that(2,3)] obtain idx where idx: "idx < length redactions"
      "seg_text seg = r_text (heap (redactions ! idx))"
      "redactionIndex seg = Some (globalIndexOf analysis (redactions ! idx) idx)" by blast
    from a have d: "distinct (da_redactions a)" and s: "subseq redactions (da_redactions a)"
      by simp_all
    from globalIndexOf_selection [OF d s idx(1)] obtain j where j: "j < length (da_redactions a)"
      "globalIndexOf (Some a) (redactions ! idx) idx = int j"
      "da_redactions a ! j = redactions ! idx" by blast
    from idx(1) have "redactions ! idx \<in> set redactions" by simp
    with a idx j show ?thesis by (simp add: tagsAnalysisIndex_def)
  qed
  have 3: "renderTextWithHighlights (Some exampleAnalysis) exampleHeap exampleText [0, 1] =
     HighlightedText exampleSegments" by code_simp
  from 1 2 3 show ?thesis by blast
qed

text \<open>
  C5. Every redacted segment is to carry the index, in the analysis's redaction list, of
  the redaction whose text was matched at that span. The code does not when the first
  redaction of the analysis is passed at another position: in
  \<open>analysis?.redactions.indexOf(r) || idx\<close> the index \<open>0\<close> is falsy and the position \<open>idx\<close> is
  taken instead. For the analysis holding "John Smith" and "123-45-6789", and the two
  passed in the other order, the segment "John Smith" carries the index 1, which in the
  analysis is the index of "123-45-6789".
\<close>

theorem C5_first_redaction_tagged_with_position:
  "renderTextWithHighlights (Some exampleAnalysis) exampleHeap exampleText [1, 0] =
     HighlightedText
       [\<lparr>seg_text = ''Name: '', isRedacted = False, redactionIndex = None\<rparr>,
        \<lparr>seg_text = ''John Smith'', isRedacted = True, redactionIndex = Some 1\<rparr>,
        \<lparr>seg_text = '', SSN: '', isRedacted = False, redactionIndex = None\<rparr>,
        \<lparr>seg_text = ''123-45-6789'', isRedacted = True, redactionIndex = Some 1\<rparr>] \<and>
   r_text (exampleHeap (da_redactions exampleAnalysis ! 1)) = ''123-45-6789'' \<and>
   \<not> tagsAnalysisIndex (Some exampleAnalysis) exampleHeap [1, 0]
         \<lparr>seg_text = ''John Smith'', isRedacted = True, redactionIndex = Some 1\<rparr>"
  by code_simp

section \<open>Identifiers assigned by addAnalysis\<close>

lemma show_nat_no_underscore: "CHR ''_'' \<notin> set (show_nat n)"
proof (induction n rule: show_nat.induct)
  case (1 n)
  have digit: "''0123456789'' ! k \<noteq> CHR ''_''" if "k < 10" for k :: nat
  proof -
    from that have "''0123456789'' ! k \<in> set ''0123456789''" by (intro nth_mem) simp
    then show ?thesis by auto
  qed
  show ?case
  proof (cases "n < 10")
    case True
    then show ?thesis using digit [of n] by (subst show_nat.simps) simp
  next
    case False
    then show ?thesis using 1 digit [of "n mod 10"] by (subst show_nat.simps) simp
  qed
qed

lemma first_separator_split:
  "x \<notin> set xs \<Longrightarrow> x \<notin> set xs' \<Longrightarrow> xs @ x # ys = xs' @ x # ys' \<Longrightarrow> ys = ys'"
proof (induction xs arbitrary: xs')
  case Nil
  then show ?case by (cases xs') auto
next
  case (Cons a xs)
  then show ?case by (cases xs') auto
qed

lemma freshDetectionId_suffix:
  assumes "freshDetectionId env i = freshDetectionId env j"
  shows "rand36 env i = rand36 env j"
proof -
  from assms have "show_nat (clock env i) @ CHR ''_'' # rand36 env i
      = show_nat (clock env j) @ CHR ''_'' # rand36 env j"
    by (simp add: freshDetectionId_def)
  then show ?thesis
    by (rule first_separator_split [OF show_nat_no_underscore show_nat_no_underscore])
qed

lemma length_detectionsWithIds [simp]: "length (detectionsWithIds env ds) = length ds"
  by (simp add: detectionsWithIds_def)

lemma nth_detectionsWithIds:
  "i < length ds \<Longrightarrow> detectionsWithIds env ds ! i = (ds ! i)\<lparr>d_id := freshDetectionId env i\<rparr>"
  by (simp add: detectionsWithIds_def nth_enumerate_eq)

lemma ids_detectionsWithIds:
  "map d_id (detectionsWithIds env ds) = map (freshDetectionId env) [0..<length ds]"
  by (rule nth_equalityI) (simp_all add: nth_detectionsWithIds)

lemma distinct_detectionsWithIds:
  assumes "distinct (map (rand36 env) [0..<length ds])"
  shows "distinct (map d_id (detectionsWithIds env ds))"
proof -
  from assms have inj: "inj_on (rand36 env) {0..<length ds}" by (simp add: distinct_map)
  have "inj_on (freshDetectionId env) {0..<length ds}"
  proof (rule inj_onI)
    fix i j assume "i \<in> {0..<length ds}" "j \<in> {0..<length ds}"
      and "freshDetectionId env i = freshDetectionId env j"
    with inj freshDetectionId_suffix show "i = j" by (meson inj_onD)
  qed
  then show ?thesis by (simp add: ids_detectionsWithIds distinct_map)
qed


text \<open>
  What \<open>addAnalysis\<close> does: the analysis is stored under \<open>analyses[analysis.id]\<close> with every
  detection given the id \<open>det_<Date.now()>_<random suffix>\<close>. The id is non-empty, every
  other field of the detection and of the analysis is as it was, and the ids within the
  analysis are pairwise different whenever the random suffixes drawn for its detections are.
\<close>

lemma addAnalysis_assigns_ids:
  "\<exists>stored.
     analyses (addAnalysis env state analysis) (a_id analysis) = Some stored \<and>
     stored\<lparr>detections := detections analysis\<rparr> = analysis \<and>
     length (detections stored) = length (detections analysis) \<and>
     (\<forall>i < length (detections analysis).
        d_id (detections stored ! i) = ''det_'' @ show_nat (clock env i) @ ''_'' @ rand36 env i \<and>
        d_id (detections stored ! i) \<noteq> [] \<and>
        (detections stored ! i)\<lparr>d_id := d_id (detections analysis ! i)\<rparr> = detections analysis ! i) \<and>
     (distinct (map (rand36 env) [0..<length (detections analysis)]) \<longrightarrow>
        distinct (map d_id (detections stored)))"
proof -
  define stored where "stored = analysis\<lparr>detections := detectionsWithIds env (detections analysis)\<rparr>"
  have 1: "analyses (addAnalysis env state analysis) (a_id analysis) = Some stored"
    by (simp add: addAnalysis_def stored_def)
  have 2: "stored\<lparr>detections := detections analysis\<rparr> = analysis" by (simp add: stored_def)
  have 3: "length (detections stored) = length (detections analysis)" by (simp add: stored_def)
  have 4: "d_id (detections stored ! i) = ''det_'' @ show_nat (clock env i) @ ''_'' @ rand36 env i \<and>
        d_id (detections stored ! i) \<noteq> [] \<and>
        (detections stored ! i)\<lparr>d_id := d_id (detections analysis ! i)\<rparr> = detections analysis ! i"
    if "i < length (detections analysis)" for i
    using that by (simp add: stored_def nth_detectionsWithIds freshDetectionId_def)
  have 5: "distinct (map d_id (detections stored))"
    if "distinct (map (rand36 env) [0..<length (detections analysis)])"
    using distinct_detectionsWithIds [OF that] by (simp add: stored_def)
  from 1 2 3 4 5 show ?thesis by blast
qed


lemma exampleIds: "map d_id (detectionsWithIds exampleEnv (detections exampleStoredAnalysis))
    = [''det_1700000000000_k3x9a1b2c'', ''det_1700000000000_z8y7x6w5v'']"
proof -
  have "show_nat 1700000000000 = ''1700000000000''" by (simp add: show_nat.simps)
  then show ?thesis
    by (simp add: detectionsWithIds_def freshDetectionId_def exampleEnv_def
        exampleStoredAnalysis_def enumerate_eq_zip upt_rec)
qed

lemma exampleLaterIds:
  "map d_id (detectionsWithIds exampleEnvLater (detections exampleStoredAnalysis))
    = [''det_1700000000500_p0q1r2s3t'', ''det_1700000000500_m4n5o6p7q'']"
proof -
  have "show_nat 1700000000500 = ''1700000000500''" by (simp add: show_nat.simps)
  then show ?thesis
    by (simp add: detectionsWithIds_def freshDetectionId_def exampleEnvLater_def
        exampleStoredAnalysis_def enumerate_eq_zip upt_rec)
qed

text \<open>
  C3. \<open>addAnalysis\<close> is to give an id to every detection lacking one and to leave the ids
  already assigned as they are, also when it runs a second time on the same analysis. The
  code does not: its \<open>map\<close> writes a generated id into every detection. The detections that
  come with the ids \<open>d1\<close> and \<open>d2\<close> are stored with generated ids, and a second run on the
  same analysis stores them with other ids again.
\<close>

theorem C3_assigned_ids_overwritten:
  "map d_id (detections exampleStoredAnalysis) = [''d1'', ''d2''] \<and>
   map_option (map d_id \<circ> detections)
       (analyses (addAnalysis exampleEnv initialState exampleStoredAnalysis) ''analysis_1'')
     = Some [''det_1700000000000_k3x9a1b2c'', ''det_1700000000000_z8y7x6w5v''] \<and>
   map_option (map d_id \<circ> detections)
       (analyses (addAnalysis exampleEnvLater
                    (addAnalysis exampleEnv initialState exampleStoredAnalysis)
                    exampleStoredAnalysis) ''analysis_1'')
     = Some [''det_1700000000500_p0q1r2s3t'', ''det_1700000000500_m4n5o6p7q'']"
proof -
  have "map d_id (detections exampleStoredAnalysis) = [''d1'', ''d2'']"
    by (simp add: exampleStoredAnalysis_def exampleDetection_def)
  moreover have "a_id exampleStoredAnalysis = ''analysis_1''"
    by (simp add: exampleStoredAnalysis_def)
  ultimately show ?thesis by (simp add: addAnalysis_def exampleIds exampleLaterIds)
qed

section \<open>updateDetection\<close>

lemma findIndex_from_none:
  "\<forall>x \<in> set xs. \<not> P x \<Longrightarrow> findIndex_from P xs k = - 1"
  by (induction xs arbitrary: k) simp_all

lemma findIndex_from_first:
  "\<exists>x \<in> set xs. P x \<Longrightarrow>
     \<exists>i < length xs. findIndex_from P xs k = int (k + i) \<and> P (xs ! i) \<and> (\<forall>j < i. \<not> P (xs ! j))"
proof (induction xs arbitrary: k)
  case Nil
  then show ?case by simp
next
  case (Cons y ys)
  show ?case
  proof (cases "P y")
    case True
    then show ?thesis by (intro exI [of _ 0]) simp
  next
    case False
    with Cons.prems have "\<exists>x \<in> set ys. P x" by simp
    from Cons.IH [OF this, of "Suc k"] obtain i where i: "i < length ys"
      "findIndex_from P ys (Suc k) = int (Suc k + i)" "P (ys ! i)" "\<forall>j < i. \<not> P (ys ! j)"
      by blast
    have "\<forall>j < Suc i. \<not> P ((y # ys) ! j)"
    proof (intro allI impI)
      fix j assume "j < Suc i"
      with False i(4) show "\<not> P ((y # ys) ! j)" by (cases j) simp_all
    qed
    with False i(1,2,3) show ?thesis by (intro exI [of _ "Suc i"]) simp
  qed
qed

lemma findIndex_none:
  "\<forall>x \<in> set xs. \<not> P x \<Longrightarrow> findIndex P xs = - 1"
  by (simp add: findIndex_def findIndex_from_none)

lemma findIndex_first:
  assumes "\<exists>x \<in> set xs. P x"
  obtains i where "i < length xs" and "findIndex P xs = int i" and "P (xs ! i)"
    and "\<forall>j < i. \<not> P (xs ! j)"
  using findIndex_from_first [OF assms, of 0] by (auto simp: findIndex_def)

text \<open>
  C9. \<open>updateDetection\<close> looks for the id among the detections of \<open>currentAnalysis\<close> only.
  Without a current analysis, or when no detection of it has the id, the state is returned
  unchanged (and nothing is raised: the action has no failing branch). Otherwise the fields
  given are merged into the first detection with that id: each field of that detection takes
  the value given for it, and keeps its old value when none is given; the other detections
  and the other fields of the analysis are unchanged. The changed analysis becomes
  \<open>currentAnalysis\<close> and is written to \<open>analyses\<close> under its own id; every other entry of
  \<open>analyses\<close> and every other field of the state stay as they were.
\<close>

theorem C9_updateDetection:
  "(currentAnalysis state = None \<longrightarrow> updateDetection state detectionId updates = state) \<and>
   (\<forall>ca. currentAnalysis state = Some ca \<and> detectionId \<notin> d_id ` set (detections ca) \<longrightarrow>
      updateDetection state detectionId updates = state) \<and>
   (\<forall>ca. currentAnalysis state = Some ca \<and> detectionId \<in> d_id ` set (detections ca) \<longrightarrow>
      (\<exists>i < length (detections ca).
         d_id (detections ca ! i) = detectionId \<and>
         (\<forall>j < i. d_id (detections ca ! j) \<noteq> detectionId) \<and>
         (\<exists>ca'. ca' = ca\<lparr>detections := (detections ca)[i := assign (detections ca ! i) updates]\<rparr> \<and>
            currentAnalysis (updateDetection state detectionId updates) = Some ca' \<and>
            analyses (updateDetection state detectionId updates) (a_id ca) = Some ca' \<and>
            (\<forall>k. k \<noteq> a_id ca \<longrightarrow>
               analyses (updateDetection state detectionId updates) k = analyses state k) \<and>
            updateDetection state detectionId updates =
              state\<lparr>currentAnalysis := Some ca', analyses := (analyses state)(a_id ca \<mapsto> ca')\<rparr> \<and>
            ca'\<lparr>detections := detections ca\<rparr> = ca \<and>
            length (detections ca') = length (detections ca) \<and>
            (\<forall>j < length (detections ca). j \<noteq> i \<longrightarrow> detections ca' ! j = detections ca ! j) \<and>
            d_text (detections ca' ! i) =
              (case u_text updates of None \<Rightarrow> d_text (detections ca ! i) | Some v \<Rightarrow> v) \<and>
            d_category (detections ca' ! i) =
              (case u_category updates of None \<Rightarrow> d_category (detections ca ! i) | Some v \<Rightarrow> v) \<and>
            d_confidence (detections ca' ! i) =
              (case u_confidence updates of None \<Rightarrow> d_confidence (detections ca ! i) | Some v \<Rightarrow> v) \<and>
            d_page_number (detections ca' ! i) =
              (case u_page_number updates of None \<Rightarrow> d_page_number (detections ca ! i) | Some v \<Rightarrow> v) \<and>
            d_start_pos (detections ca' ! i) =
              (case u_start_pos updates of None \<Rightarrow> d_start_pos (detections ca ! i) | Some v \<Rightarrow> v) \<and>
            d_end_pos (detections ca' ! i) =
              (case u_end_pos updates of None \<Rightarrow> d_end_pos (detections ca ! i) | Some v \<Rightarrow> v) \<and>
            d_detection_reason (detections ca' ! i) =
              (case u_detection_reason updates of None \<Rightarrow> d_detection_reason (detections ca ! i) | Some v \<Rightarrow> v) \<and>
            d_pattern_name (detections ca' ! i) =
              (case u_pattern_name updates of None \<Rightarrow> d_pattern_name (detections ca ! i) | Some v \<Rightarrow> v) \<and>
            d_context (detections ca' ! i) =
              (case u_context updates of None \<Rightarrow> d_context (detections ca ! i) | Some v \<Rightarrow> v) \<and>
            d_approved (detections ca' ! i) =
              (case u_approved updates of None \<Rightarrow> d_approved (detections ca ! i) | Some v \<Rightarrow> v) \<and>
            d_id (detections ca' ! i) =
              (case u_id updates of None \<Rightarrow> d_id (detections ca ! i) | Some v \<Rightarrow> v))))"
proof -
  have 1: "updateDetection state detectionId updates = state" if "currentAnalysis state = None"
    using that by (simp add: updateDetection_def)
  have 2: "updateDetection state detectionId updates = state"
    if "currentAnalysis state = Some ca \<and> detectionId \<notin> d_id ` set (detections ca)" for ca
  proof -
    from that have "\<forall>x \<in> set (detections ca). \<not> d_id x = detectionId" by auto
    from findIndex_none [OF this] that show ?thesis by (simp add: updateDetection_def)
  qed
  have 3: "(\<exists>i < length (detections ca).
          d_id (detections ca ! i) = detectionId \<and>
          (\<forall>j < i. d_id (detections ca ! j) \<noteq> detectionId) \<and>
          (\<exists>ca'. ca' = ca\<lparr>detections := (detections ca)[i := assign (detections ca ! i) updates]\<rparr> \<and>
             currentAnalysis (updateDetection state detectionId updates) = Some ca' \<and>
             analyses (updateDetection state detectionId updates) (a_id ca) = Some ca' \<and>
             (\<forall>k. k \<noteq> a_id ca \<longrightarrow>
                analyses (updateDetection state detectionId updates) k = analyses state k) \<and>
             updateDetection state detectionId updates =
               state\<lparr>currentAnalysis := Some ca', analyses := (analyses state)(a_id ca \<mapsto> ca')\<rparr> \<and>
             ca'\<lparr>detections := detections ca\<rparr> = ca \<and>
             length (detections ca') = length (detections ca) \<and>
             (\<forall>j < length (detections ca). j \<noteq> i \<longrightarrow> detections ca' ! j = detections ca ! j) \<and>
             d_text (detections ca' ! i) =
               (case u_text updates of None \<Rightarrow> d_text (detections ca ! i) | Some v \<Rightarrow> v) \<and>
             d_category (detections ca' ! i) =
               (case u_category updates of None \<Rightarrow> d_category (detections ca ! i) | Some v \<Rightarrow> v) \<and>
             d_confidence (detections ca' ! i) =
               (case u_confidence updates of None \<Rightarrow> d_confidence (detections ca ! i) | Some v \<Rightarrow> v) \<and>
             d_page_number (detections ca' ! i) =
               (case u_page_number updates of None \<Rightarrow> d_page_number (detections ca ! i) | Some v \<Rightarrow> v) \<and>
             d_start_pos (detections ca' ! i) =
               (case u_start_pos updates of None \<Rightarrow> d_start_pos (detections ca ! i) | Some v \<Rightarrow> v) \<and>
             d_end_pos (detections ca' ! i) =
               (case u_end_pos updates of None \<Rightarrow> d_end_pos (detections ca ! i) | Some v \<Rightarrow> v) \<and>
             d_detection_reason (detections ca' ! i) =
               (case u_detection_reason updates of None \<Rightarrow> d_detection_reason (detections ca ! i) | Some v \<Rightarrow> v) \<and>
             d_pattern_name (detections ca' ! i) =
               (case u_pattern_name updates of None \<Rightarrow> d_pattern_name (detections ca ! i) | Some v \<Rightarrow> v) \<and>
             d_context (detections ca' ! i) =
               (case u_context updates of None \<Rightarrow> d_context (detections ca ! i) | Some v \<Rightarrow> v) \<and>
             d_approved (detections ca' ! i) =
               (case u_approved updates of None \<Rightarrow> d_approved (detections ca ! i) | Some v \<Rightarrow> v) \<and>
             d_id (detections ca' ! i) =
               (case u_id updates of None \<Rightarrow> d_id (detections ca ! i) | Some v \<Rightarrow> v)))"
    if "currentAnalysis state = Some ca \<and> detectionId \<in> d_id ` set (detections ca)" for ca
  proof -
    from that have "\<exists>x \<in> set (detections ca). d_id x = detectionId" by auto
    from findIndex_first [OF this] obtain i where i: "i < length (detections ca)"
      "findIndex (\<lambda>d. d_id d = detectionId) (detections ca) = int i"
      "d_id (detections ca ! i) = detectionId"
      "\<forall>j < i. \<not> d_id (detections ca ! j) = detectionId" by blast
    define ca' where "ca' = ca\<lparr>detections := (detections ca)[i := assign (detections ca ! i) updates]\<rparr>"
    from that i(2) have u: "updateDetection state detectionId updates =
        state\<lparr>currentAnalysis := Some ca', analyses := (analyses state)(a_id ca \<mapsto> ca')\<rparr>"
      by (simp add: updateDetection_def Let_def ca'_def)
    have f: "ca'\<lparr>detections := detections ca\<rparr> = ca"
      and l: "length (detections ca') = length (detections ca)"
      and o: "\<forall>j < length (detections ca). j \<noteq> i \<longrightarrow> detections ca' ! j = detections ca ! j"
      and m: "detections ca' ! i = assign (detections ca ! i) updates"
      using i(1) by (simp_all add: ca'_def)
    have g: "d_text (detections ca' ! i) =
        (case u_text updates of None \<Rightarrow> d_text (detections ca ! i) | Some v \<Rightarrow> v) \<and>
      d_category (detections ca' ! i) =
        (case u_category updates of None \<Rightarrow> d_category (detections ca ! i) | Some v \<Rightarrow> v) \<and>
      d_confidence (detections ca' ! i) =
        (case u_confidence updates of None \<Rightarrow> d_confidence (detections ca ! i) | Some v \<Rightarrow> v) \<and>
      d_page_number (detections ca' ! i) =
        (case u_page_number updates of None \<Rightarrow> d_page_number (detections ca ! i) | Some v \<Rightarrow> v) \<and>
      d_start_pos (detections ca' ! i) =
        (case u_start_pos updates of None \<Rightarrow> d_start_pos (detections ca ! i) | Some v \<Rightarrow> v) \<and>
      d_end_pos (detections ca' ! i) =
        (case u_end_pos updates of None \<Rightarrow> d_end_pos (detections ca ! i) | Some v \<Rightarrow> v) \<and>
      d_detection_reason (detections ca' ! i) =
        (case u_detection_reason updates of None \<Rightarrow> d_detection_reason (detections ca ! i) | Some v \<Rightarrow> v) \<and>
      d_pattern_name (detections ca' ! i) =
        (case u_pattern_name updates of None \<Rightarrow> d_pattern_name (detections ca ! i) | Some v \<Rightarrow> v) \<and>
      d_context (detections ca' ! i) =
        (case u_context updates of None \<Rightarrow> d_context (detections ca ! i) | Some v \<Rightarrow> v) \<and>
      d_approved (detections ca' ! i) =
        (case u_approved updates of None \<Rightarrow> d_approved (detections ca ! i) | Some v \<Rightarrow> v) \<and>
      d_id (detections ca' ! i) =
        (case u_id updates of None \<Rightarrow> d_id (detections ca ! i) | Some v \<Rightarrow> v)"
      unfolding m by (simp add: assign_def)
    from i(1,3,4) u f l o g show ?thesis
      by (intro exI [of _ i] conjI exI [of _ ca']) (simp_all add: ca'_def)
  qed
  from 1 2 3 show ?thesis by blast
qed

lemma example_ids: "d_id ` set (detections exampleStoredAnalysis) = {''d1'', ''d2''}"
  by (simp add: exampleStoredAnalysis_def exampleDetection_def)

theorem C9_updateDetection_witness:
  "currentAnalysis initialState = None \<and>
   updateDetection initialState ''d1'' rejectUpdate = initialState \<and>
   currentAnalysis reviewState = Some exampleStoredAnalysis \<and>
   ''d9'' \<notin> d_id ` set (detections exampleStoredAnalysis) \<and>
   updateDetection reviewState ''d9'' rejectUpdate = reviewState \<and>
   ''d1'' \<in> d_id ` set (detections exampleStoredAnalysis) \<and>
   d_approved (detections exampleStoredAnalysis ! 0) = True \<and>
   (\<exists>ca'. currentAnalysis (updateDetection reviewState ''d1'' rejectUpdate) = Some ca' \<and>
      analyses (updateDetection reviewState ''d1'' rejectUpdate) (a_id exampleStoredAnalysis)
        = Some ca' \<and>
      analyses (updateDetection reviewState ''d1'' rejectUpdate) ''analysis_0''
        = analyses reviewState ''analysis_0'' \<and>
      d_approved (detections ca' ! 0) = False \<and>
      d_id (detections ca' ! 0) = ''d1'' \<and>
      d_text (detections ca' ! 0) = ''John Smith'' \<and>
      d_confidence (detections ca' ! 0) = d_confidence (detections exampleStoredAnalysis ! 0) \<and>
      length (detections ca') = 2 \<and>
      detections ca' ! 1 = exampleDetection ''d2'' ''123-45-6789'' \<and>
      ca'\<lparr>detections := detections exampleStoredAnalysis\<rparr> = exampleStoredAnalysis)"
proof -
  have n: "currentAnalysis initialState = None" by (simp add: initialState_def)
  have c: "currentAnalysis reviewState = Some exampleStoredAnalysis"
    by (simp add: reviewState_def)
  have a: "''d9'' \<notin> d_id ` set (detections exampleStoredAnalysis)" by (simp add: example_ids)
  have p: "''d1'' \<in> d_id ` set (detections exampleStoredAnalysis)" by (simp add: example_ids)
  have k: "''analysis_0'' \<noteq> a_id exampleStoredAnalysis" by (simp add: exampleStoredAnalysis_def)
  have len: "length (detections exampleStoredAnalysis) = 2"
    and d0: "detections exampleStoredAnalysis ! 0 = exampleDetection ''d1'' ''John Smith''"
    and d1: "detections exampleStoredAnalysis ! 1 = exampleDetection ''d2'' ''123-45-6789''"
    by (simp_all add: exampleStoredAnalysis_def)
  have ap: "d_approved (detections exampleStoredAnalysis ! 0) = True"
    and id0: "d_id (detections exampleStoredAnalysis ! 0) = ''d1''"
    and tx0: "d_text (detections exampleStoredAnalysis ! 0) = ''John Smith''"
    by (simp_all add: d0 exampleDetection_def)
  have ua: "u_approved rejectUpdate = Some False" and ui: "u_id rejectUpdate = None"
    and ut: "u_text rejectUpdate = None" and uc: "u_confidence rejectUpdate = None"
    by (simp_all add: rejectUpdate_def)
  note T0 = C9_updateDetection [of initialState "''d1''" rejectUpdate]
  note T1 = C9_updateDetection [of reviewState "''d9''" rejectUpdate]
  note T2 = C9_updateDetection [of reviewState "''d1''" rejectUpdate]
  from T0 n have 1: "updateDetection initialState ''d1'' rejectUpdate = initialState" by blast
  from T1 c a have 2: "updateDetection reviewState ''d9'' rejectUpdate = reviewState" by blast
  from T2 c p obtain i ca' where i: "i < length (detections exampleStoredAnalysis)"
    and first: "\<forall>j < i. d_id (detections exampleStoredAnalysis ! j) \<noteq> ''d1''"
    and cur: "currentAnalysis (updateDetection reviewState ''d1'' rejectUpdate) = Some ca'"
    and ent: "analyses (updateDetection reviewState ''d1'' rejectUpdate)
        (a_id exampleStoredAnalysis) = Some ca'"
    and oth: "\<forall>k. k \<noteq> a_id exampleStoredAnalysis \<longrightarrow>
       analyses (updateDetection reviewState ''d1'' rejectUpdate) k = analyses reviewState k"
    and frame: "ca'\<lparr>detections := detections exampleStoredAnalysis\<rparr> = exampleStoredAnalysis"
    and l: "length (detections ca') = length (detections exampleStoredAnalysis)"
    and rest: "\<forall>j < length (detections exampleStoredAnalysis). j \<noteq> i \<longrightarrow>
       detections ca' ! j = detections exampleStoredAnalysis ! j"
    and fa: "d_approved (detections ca' ! i) =
       (case u_approved rejectUpdate of None \<Rightarrow> d_approved (detections exampleStoredAnalysis ! i)
        | Some v \<Rightarrow> v)"
    and fi: "d_id (detections ca' ! i) =
       (case u_id rejectUpdate of None \<Rightarrow> d_id (detections exampleStoredAnalysis ! i)
        | Some v \<Rightarrow> v)"
    and ft: "d_text (detections ca' ! i) =
       (case u_text rejectUpdate of None \<Rightarrow> d_text (detections exampleStoredAnalysis ! i)
        | Some v \<Rightarrow> v)"
    and fc: "d_confidence (detections ca' ! i) =
       (case u_confidence rejectUpdate of None \<Rightarrow> d_confidence (detections exampleStoredAnalysis ! i)
        | Some v \<Rightarrow> v)"
    by blast
  have i0: "i = 0"
  proof (rule ccontr)
    assume "i \<noteq> 0"
    then have "0 < i" by simp
    with first have "d_id (detections exampleStoredAnalysis ! 0) \<noteq> ''d1''" by blast
    with id0 show False by simp
  qed
  from fa have 3: "d_approved (detections ca' ! 0) = False" unfolding i0 ua by simp
  from fi have 4: "d_id (detections ca' ! 0) = ''d1''" unfolding i0 ui id0 by simp
  from ft have 5: "d_text (detections ca' ! 0) = ''John Smith''" unfolding i0 ut tx0 by simp
  from fc have 6: "d_confidence (detections ca' ! 0)
      = d_confidence (detections exampleStoredAnalysis ! 0)" unfolding i0 uc by simp
  from l have 7: "length (detections ca') = 2" unfolding len .
  from rest have "(1::nat) < length (detections exampleStoredAnalysis) \<and> (1::nat) \<noteq> i
      \<longrightarrow> detections ca' ! 1 = detections exampleStoredAnalysis ! 1" by blast
  then have 8: "detections ca' ! 1 = exampleDetection ''d2'' ''123-45-6789''"
    unfolding i0 len d1 by simp
  from oth k have 9: "analyses (updateDetection reviewState ''d1'' rejectUpdate) ''analysis_0''
        = analyses reviewState ''analysis_0''" by blast
  from cur ent 9 3 4 5 6 7 8 frame
  have ex: "\<exists>ca'. currentAnalysis (updateDetection reviewState ''d1'' rejectUpdate) = Some ca' \<and>
      analyses (updateDetection reviewState ''d1'' rejectUpdate) (a_id exampleStoredAnalysis)
        = Some ca' \<and>
      analyses (updateDetection reviewState ''d1'' rejectUpdate) ''analysis_0''
        = analyses reviewState ''analysis_0'' \<and>
      d_approved (detections ca' ! 0) = False \<and>
      d_id (detections ca' ! 0) = ''d1'' \<and>
      d_text (detections ca' ! 0) = ''John Smith'' \<and>
      d_confidence (detections ca' ! 0) = d_confidence (detections exampleStoredAnalysis ! 0) \<and>
      length (detections ca') = 2 \<and>
      detections ca' ! 1 = exampleDetection ''d2'' ''123-45-6789'' \<and>
      ca'\<lparr>detections := detections exampleStoredAnalysis\<rparr> = exampleStoredAnalysis"
    by (intro exI [of _ ca'] conjI)
  from n 1 c a 2 p ap ex show ?thesis by (intro conjI)
qed

section \<open>approveAllDetections and rejectAllDetections\<close>

text \<open>
  C10. Without a current analysis, \<open>approveAllDetections\<close> and \<open>rejectAllDetections\<close> return
  the state unchanged. With a current analysis they set the \<open>approved\<close> flag of each of its
  detections (to true, respectively false), make the result the current analysis and the
  entry of \<open>analyses\<close> under its id, and change nothing else: \<open>documents\<close>,
  \<open>currentDocument\<close>, \<open>redactionConfig\<close>, \<open>isLoading\<close>, \<open>error\<close>, the other entries of
  \<open>analyses\<close>, and every other field of the analysis and of its detections are as before.
\<close>

theorem C10_bulk_approval_frame:
  "(currentAnalysis state = None \<longrightarrow>
      approveAllDetections state = state \<and> rejectAllDetections state = state) \<and>
   (\<forall>ca b. currentAnalysis state = Some ca \<longrightarrow>
      (let state' = (if b then approveAllDetections state else rejectAllDetections state) in
       documents state' = documents state \<and>
       currentDocument state' = currentDocument state \<and>
       redactionConfig state' = redactionConfig state \<and>
       isLoading state' = isLoading state \<and>
       error state' = error state \<and>
       (\<exists>ca'. currentAnalysis state' = Some ca' \<and>
          analyses state' = (analyses state)(a_id ca \<mapsto> ca') \<and>
          ca'\<lparr>detections := detections ca\<rparr> = ca \<and>
          length (detections ca') = length (detections ca) \<and>
          (\<forall>i < length (detections ca).
             detections ca' ! i = (detections ca ! i)\<lparr>d_approved := b\<rparr>))))"
proof -
  have 1: "approveAllDetections state = state \<and> rejectAllDetections state = state"
    if "currentAnalysis state = None"
    using that by (simp add: approveAllDetections_def rejectAllDetections_def)
  have 2: "(let state' = (if b then approveAllDetections state else rejectAllDetections state) in
       documents state' = documents state \<and>
       currentDocument state' = currentDocument state \<and>
       redactionConfig state' = redactionConfig state \<and>
       isLoading state' = isLoading state \<and>
       error state' = error state \<and>
       (\<exists>ca'. currentAnalysis state' = Some ca' \<and>
          analyses state' = (analyses state)(a_id ca \<mapsto> ca') \<and>
          ca'\<lparr>detections := detections ca\<rparr> = ca \<and>
          length (detections ca') = length (detections ca) \<and>
          (\<forall>i < length (detections ca).
             detections ca' ! i = (detections ca ! i)\<lparr>d_approved := b\<rparr>)))"
    if "currentAnalysis state = Some ca" for ca b
    using that by (cases b) (simp_all add: approveAllDetections_def rejectAllDetections_def Let_def)
  from 1 2 show ?thesis by blast
qed


theorem C10_bulk_approval_frame_witness:
  "currentAnalysis initialState = None \<and>
   approveAllDetections initialState = initialState \<and>
   rejectAllDetections initialState = initialState \<and>
   currentAnalysis reviewState = Some exampleStoredAnalysis \<and>
   documents (rejectAllDetections reviewState) = documents reviewState \<and>
   currentDocument (rejectAllDetections reviewState) = currentDocument reviewState \<and>
   (\<exists>ca'. currentAnalysis (rejectAllDetections reviewState) = Some ca' \<and>
      analyses (rejectAllDetections reviewState)
        = (analyses reviewState)(a_id exampleStoredAnalysis \<mapsto> ca') \<and>
      detections ca' ! 0 = (detections exampleStoredAnalysis ! 0)\<lparr>d_approved := False\<rparr>)"
proof -
  have n: "currentAnalysis initialState = None" by (simp add: initialState_def)
  have c: "currentAnalysis reviewState = Some exampleStoredAnalysis"
    by (simp add: reviewState_def)
  have l: "0 < length (detections exampleStoredAnalysis)" by (simp add: exampleStoredAnalysis_def)
  from C10_bulk_approval_frame [of initialState] n
  have 1: "approveAllDetections initialState = initialState"
    and 2: "rejectAllDetections initialState = initialState" by blast+
  from C10_bulk_approval_frame [of reviewState] c
  have "let state' = (if False then approveAllDetections reviewState
                      else rejectAllDetections reviewState) in
       documents state' = documents reviewState \<and>
       currentDocument state' = currentDocument reviewState \<and>
       redactionConfig state' = redactionConfig reviewState \<and>
       isLoading state' = isLoading reviewState \<and>
       error state' = error reviewState \<and>
       (\<exists>ca'. currentAnalysis state' = Some ca' \<and>
          analyses state' = (analyses reviewState)(a_id exampleStoredAnalysis \<mapsto> ca') \<and>
          ca'\<lparr>detections := detections exampleStoredAnalysis\<rparr> = exampleStoredAnalysis \<and>
          length (detections ca') = length (detections exampleStoredAnalysis) \<and>
          (\<forall>i < length (detections exampleStoredAnalysis).
             detections ca' ! i = (detections exampleStoredAnalysis ! i)\<lparr>d_approved := False\<rparr>))"
    by blast
  then have 3: "documents (rejectAllDetections reviewState) = documents reviewState"
    and 4: "currentDocument (rejectAllDetections reviewState) = currentDocument reviewState"
    and 5: "\<exists>ca'. currentAnalysis (rejectAllDetections reviewState) = Some ca' \<and>
          analyses (rejectAllDetections reviewState)
            = (analyses reviewState)(a_id exampleStoredAnalysis \<mapsto> ca') \<and>
          (\<forall>i < length (detections exampleStoredAnalysis).
             detections ca' ! i = (detections exampleStoredAnalysis ! i)\<lparr>d_approved := False\<rparr>)"
    unfolding Let_def if_False by blast+
  from 5 l have 6: "\<exists>ca'. currentAnalysis (rejectAllDetections reviewState) = Some ca' \<and>
      analyses (rejectAllDetections reviewState)
        = (analyses reviewState)(a_id exampleStoredAnalysis \<mapsto> ca') \<and>
      detections ca' ! 0 = (detections exampleStoredAnalysis ! 0)\<lparr>d_approved := False\<rparr>"
    by blast
  from n 1 2 c 3 4 6 show ?thesis by (intro conjI)
qed

section \<open>Single-flight analysis\<close>

text \<open>
  The single-flight guard: a call of \<open>startAnalysis\<close> made while the guard is set returns
  \<open>null\<close> and leaves the page as it is, so no request is sent and the store is not written.
  Of two calls in rapid succession, the first with the guard clear, only the first sends a
  request; when it succeeds, \<open>setCurrentAnalysis\<close> is called once with the normalised result
  and the guard is clear again.
\<close>

lemma single_flight_collapses_calls:
  "(isAnalyzingRef page \<longrightarrow> startAnalysis_call page docId = (ReturnedNull, page)) \<and>
   (\<not> isAnalyzingRef page \<longrightarrow>
      (\<exists>page1 page3.
         startAnalysis_call page docId = (Pending, page1) \<and>
         startAnalysis_call page1 docId = (ReturnedNull, page1) \<and>
         twoCalls env page docId (Inr result)
           = (Pending, ReturnedNull, Inr (formattedResult env result), page3) \<and>
         analyzeRequests page1 = analyzeRequests page @ [(docId, pageRedactionConfig)] \<and>
         store page1 = store page \<and>
         analyzeRequests page3 = analyzeRequests page @ [(docId, pageRedactionConfig)] \<and>
         store page3 = (store page)\<lparr>currentAnalysis := Some (formattedResult env result)\<rparr> \<and>
         analyses (store page3) = analyses (store page) \<and>
         isAnalyzingRef page3 = False))"
  by (simp add: twoCalls_def startAnalysis_call_def startAnalysis_settle_def
      setCurrentAnalysis_def Let_def)

text \<open>
  C2. Two calls of \<open>startAnalysis\<close> in rapid succession for one document are to give
  exactly one request and exactly one commit to the \<open>analyses\<close> mapping. The code sends one
  request, and the second call returns \<open>null\<close>, but it commits nothing to \<open>analyses\<close>:
  \<open>startAnalysis\<close> calls \<open>setCurrentAnalysis\<close> only, where the upload page calls
  \<open>addAnalysis\<close> as well. After the run \<open>currentAnalysis\<close> is set and \<open>analyses\<close> is
  still empty.
\<close>

theorem C2_analyses_not_written:
  "(case twoCalls exampleEnv initialPage ''doc_1'' (Inr exampleResult) of
      (first, second, settled, page3) \<Rightarrow>
        first = Pending \<and> second = ReturnedNull \<and>
        length (analyzeRequests page3) = 1 \<and>
        map_option a_id (currentAnalysis (store page3)) = Some ''analysis_1'' \<and>
        analyses (store page3) = Map.empty)"
  by (simp add: twoCalls_def startAnalysis_call_def startAnalysis_settle_def initialPage_def
      initialState_def setCurrentAnalysis_def formattedResult_def exampleResult_def Let_def)

section \<open>A failed analysis request\<close>

text \<open>
  C8. When the detection request of \<open>startAnalysis\<close> fails, the store is left as it was
  (neither \<open>currentAnalysis\<close> nor \<open>analyses\<close> changes), the error is thrown again to the
  caller, and the guard is cleared: the next call of \<open>startAnalysis\<close> sends a new request.
\<close>

theorem C8_failed_request:
  "fst (startAnalysis_settle env page (Inl e)) = Inl e \<and>
   store (snd (startAnalysis_settle env page (Inl e))) = store page \<and>
   currentAnalysis (store (snd (startAnalysis_settle env page (Inl e))))
     = currentAnalysis (store page) \<and>
   analyses (store (snd (startAnalysis_settle env page (Inl e)))) = analyses (store page) \<and>
   isAnalyzingRef (snd (startAnalysis_settle env page (Inl e))) = False \<and>
   analyzeRequests (snd (startAnalysis_settle env page (Inl e))) = analyzeRequests page \<and>
   startAnalysis_call (snd (startAnalysis_settle env page (Inl e))) docId =
     (Pending,
      (snd (startAnalysis_settle env page (Inl e)))
        \<lparr>isAnalyzingRef := True,
         toasts := toasts (snd (startAnalysis_settle env page (Inl e)))
                     @ [ToastLoading ''Starting analysis...''],
         analyzeRequests := analyzeRequests page @ [(docId, pageRedactionConfig)]\<rparr>)"
  by (simp add: startAnalysis_settle_def startAnalysis_call_def)


section \<open>Normalisation of the engine's response\<close>

text \<open>
  C4. The normalisation is to fill missing fields only, keeping what the engine supplied,
  a confidence of 0 included. The code does not: for the response whose second detection
  has the confidence 0, the normalised detection has the confidence 0.9, since
  \<open>d.confidence || 0.9\<close> takes the default for every falsy value.
\<close>

theorem C4_zero_confidence_replaced:
  "map d_confidence (detections (formattedResult env exampleResult)) = [0.95, 0.9] \<and>
   map_option (map p_confidence) (res_detections exampleResult) = Some [Some 0.95, Some 0]"
  by (simp add: formattedResult_def formatDetection_def exampleResult_def enginePartial_def
      or_number_def enumerate_eq_zip upt_rec)

text \<open>Values that are present and truthy are kept.\<close>

lemma formatDetection_keeps_truthy:
  assumes "p_id d = Some i" and "i \<noteq> []" and "p_approved d = Some a"
    and "p_detection_reason d = Some r" and "r \<noteq> []"
    and "p_page_number d = Some pn" and "p_start_pos d = Some sp" and "p_end_pos d = Some ep"
    and "p_confidence d = Some c" and "c \<noteq> 0"
  shows "formatDetection env index d =
     \<lparr>d_text = p_text d, d_category = p_category d, d_confidence = c, d_page_number = pn,
      d_start_pos = sp, d_end_pos = ep, d_detection_reason = r,
      d_pattern_name = p_pattern_name d, d_context = p_context d, d_approved = a, d_id = i\<rparr>"
  using assms by (cases a) (simp_all add: formatDetection_def or_number_def or_string_def)

section \<open>Applying redactions\<close>

text \<open>
  C7. With an empty approved subset \<open>handleApplyRedactions\<close> sends no request and triggers
  no download. With a current document, a current analysis and a non-empty approved subset
  it sends one request with the approved detections, and when the request succeeds it
  triggers one download, named \<open>redacted_\<close> followed by the document's filename. When the
  request fails there is no download.
\<close>

theorem C7_apply_redactions:
  "(filter d_approved (case currentAnalysis (store page) of None \<Rightarrow> [] | Some a \<Rightarrow> detections a) = []
      \<longrightarrow> redactRequests (handleApplyRedactions env page response) = redactRequests page \<and>
          downloads (handleApplyRedactions env page response) = downloads page) \<and>
   (\<forall>doc a redactedPdf.
      currentDocument (store page) = Some doc \<and> currentAnalysis (store page) = Some a \<and>
      filter d_approved (detections a) \<noteq> [] \<longrightarrow>
        redactRequests (handleApplyRedactions env page (Inr redactedPdf))
          = redactRequests page @
              [(doc_id doc, redactionPayload env (filter d_approved (detections a)))] \<and>
        downloads (handleApplyRedactions env page (Inr redactedPdf))
          = downloads page @ [(''redacted_'' @ filename doc, redactedPdf)]) \<and>
   (\<forall>e. downloads (handleApplyRedactions env page (Inl e)) = downloads page)"
proof -
  have 1: "redactRequests (handleApplyRedactions env page response) = redactRequests page \<and>
          downloads (handleApplyRedactions env page response) = downloads page"
    if "filter d_approved (case currentAnalysis (store page) of None \<Rightarrow> [] | Some a \<Rightarrow> detections a) = []"
    using that by (simp add: handleApplyRedactions_def split: option.splits)
  have 2: "redactRequests (handleApplyRedactions env page (Inr redactedPdf))
          = redactRequests page @
              [(doc_id doc, redactionPayload env (filter d_approved (detections a)))] \<and>
        downloads (handleApplyRedactions env page (Inr redactedPdf))
          = downloads page @ [(''redacted_'' @ filename doc, redactedPdf)]"
    if "currentDocument (store page) = Some doc \<and> currentAnalysis (store page) = Some a \<and>
      filter d_approved (detections a) \<noteq> []" for doc a redactedPdf
    using that by (simp add: handleApplyRedactions_def Let_def)
  have 3: "downloads (handleApplyRedactions env page (Inl e)) = downloads page" for e
    by (simp add: handleApplyRedactions_def Let_def split: option.splits)
  from 1 2 3 show ?thesis by blast
qed


theorem C7_apply_redactions_witness:
  "filter d_approved
      (case currentAnalysis (store rejectedPage) of None \<Rightarrow> [] | Some a \<Rightarrow> detections a) = [] \<and>
   redactRequests (handleApplyRedactions exampleEnv rejectedPage (Inr examplePdf)) = [] \<and>
   downloads (handleApplyRedactions exampleEnv rejectedPage (Inr examplePdf)) = [] \<and>
   currentDocument (store reviewPage) = Some exampleDocument \<and>
   currentAnalysis (store reviewPage) = Some exampleStoredAnalysis \<and>
   filter d_approved (detections exampleStoredAnalysis) \<noteq> [] \<and>
   downloads (handleApplyRedactions exampleEnv reviewPage (Inr examplePdf))
     = [(''redacted_report.pdf'', examplePdf)]"
proof -
  have e: "filter d_approved
      (case currentAnalysis (store rejectedPage) of None \<Rightarrow> [] | Some a \<Rightarrow> detections a) = []"
    by (simp add: rejectedPage_def rejectAllDetections_def reviewState_def Let_def
        filter_empty_conv)
  have r: "redactRequests rejectedPage = []" and d: "downloads rejectedPage = []"
    by (simp_all add: rejectedPage_def initialPage_def)
  have cd: "currentDocument (store reviewPage) = Some exampleDocument"
    and ca: "currentAnalysis (store reviewPage) = Some exampleStoredAnalysis"
    by (simp_all add: reviewPage_def reviewState_def)
  have ne: "filter d_approved (detections exampleStoredAnalysis) \<noteq> []"
    by (simp add: exampleStoredAnalysis_def exampleDetection_def)
  have d2: "downloads reviewPage = []" by (simp add: reviewPage_def initialPage_def)
  have f: "''redacted_'' @ filename exampleDocument = ''redacted_report.pdf''"
    by (simp add: exampleDocument_def)
  from C7_apply_redactions [of rejectedPage exampleEnv "Inr examplePdf"] e
  have 1: "redactRequests (handleApplyRedactions exampleEnv rejectedPage (Inr examplePdf)) = []"
    and 2: "downloads (handleApplyRedactions exampleEnv rejectedPage (Inr examplePdf)) = []"
    unfolding r d by blast+
  from C7_apply_redactions [of reviewPage exampleEnv] cd ca ne
  have "downloads (handleApplyRedactions exampleEnv reviewPage (Inr examplePdf))
     = downloads reviewPage @ [(''redacted_'' @ filename exampleDocument, examplePdf)]"
    by blast
  then have 3: "downloads (handleApplyRedactions exampleEnv reviewPage (Inr examplePdf))
     = [(''redacted_report.pdf'', examplePdf)]" unfolding d2 f by simp
  from e 1 2 cd ca ne 3 show ?thesis by (intro conjI)
qed

end
